theory Spec2Isabelle
  imports Main "HOL-Library.Word"
begin

section \<open>Errors\<close>

text \<open>
  Every exception that \<^verbatim>\<open>kge/model/kge_model.py\<close> or the library calls it makes can raise
  is a value. \<open>ValueError\<close> carries its message, because the source builds one.
\<close>

datatype error =
    AssertionError
  | ValueError string
  | KeyError
  | TypeError
  | IndexError
  | RuntimeError

text \<open>Sequencing of fallible steps: the first exception ends the computation.\<close>

definition and_then :: "error + 'a \<Rightarrow> ('a \<Rightarrow> error + 'b) \<Rightarrow> error + 'b" where
  "and_then m k = (case m of Inl e \<Rightarrow> Inl e | Inr x \<Rightarrow> k x)"

section \<open>Tensors\<close>

text \<open>
  A tensor is its shape and its elements in row-major order, which is how a contiguous
  torch tensor is laid out. A well-formed tensor holds as many elements as its shape says.
\<close>

record 'a tensor =
  shape :: "nat list"
  elems :: "'a list"

definition wf_tensor :: "'a tensor \<Rightarrow> bool" where
  "wf_tensor t \<longleftrightarrow> length (elems t) = prod_list (shape t)"

text \<open>\<^verbatim>\<open>t.size(0)\<close>: the extent of the first dimension; a 0-dimensional tensor has none.\<close>

definition size0 :: "'a tensor \<Rightarrow> error + nat" where
  "size0 t = (case shape t of [] \<Rightarrow> Inl IndexError | k # _ \<Rightarrow> Inr k)"

text \<open>Row \<open>i\<close> along dimension 0: the \<open>i\<close>-th block of \<open>prod_list (tl (shape t))\<close> elements.\<close>

definition row :: "'a tensor \<Rightarrow> nat \<Rightarrow> 'a list" where
  "row t i = (let c = prod_list (tl (shape t)) in take c (drop (i * c) (elems t)))"

text \<open>Entry \<open>(i, j)\<close> of a two-dimensional tensor, read row-major.\<close>

definition entry :: "'a tensor \<Rightarrow> nat \<Rightarrow> nat \<Rightarrow> 'a" where
  "entry t i j = elems t ! (i * (shape t ! 1) + j)"

text \<open>
  \<^verbatim>\<open>t.repeat_interleave(k, 0)\<close>: every row along dimension 0 is repeated \<open>k\<close> times
  before the next one.
\<close>

definition repeat_interleave :: "'a tensor \<Rightarrow> nat \<Rightarrow> error + 'a tensor" where
  "repeat_interleave t k =
     (case shape t of
        [] \<Rightarrow> Inl IndexError
      | a # rest \<Rightarrow>
          Inr \<lparr>shape = (a * k) # rest,
               elems = concat (map (\<lambda>i. concat (replicate k (row t i))) [0..<a])\<rparr>)"

text \<open>
  \<^verbatim>\<open>t.repeat((n, 1))\<close>: the whole tensor is laid out \<open>n\<close> times along dimension 0. torch
  pads a shape of fewer than two dimensions with leading ones and refuses a tensor of more
  dimensions than repeat counts.
\<close>

definition repeat :: "'a tensor \<Rightarrow> nat \<Rightarrow> error + 'a tensor" where
  "repeat t n =
     (case shape t of
        [] \<Rightarrow> Inr \<lparr>shape = [n, 1], elems = concat (replicate n (elems t))\<rparr>
      | [b] \<Rightarrow> Inr \<lparr>shape = [n, b], elems = concat (replicate n (elems t))\<rparr>
      | [a, b] \<Rightarrow> Inr \<lparr>shape = [n * a, b], elems = concat (replicate n (elems t))\<rparr>
      | _ \<Rightarrow> Inl RuntimeError)"

text \<open>
  \<^verbatim>\<open>out.view(n, -1)\<close>: the same elements under the shape \<open>(n, numel / n)\<close>. torch infers the
  dimension written \<open>-1\<close> and raises \<^verbatim>\<open>RuntimeError\<close> when it cannot: when \<open>n\<close> does not divide
  the number of elements, and when \<open>n = 0\<close>, where any value would fit (``the unspecified
  dimension size -1 can be any value and is ambiguous'').
\<close>

definition view :: "'a tensor \<Rightarrow> nat \<Rightarrow> error + 'a tensor" where
  "view out n =
     (let numel = length (elems out) in
      if n = 0 then Inl RuntimeError
      else if numel mod n \<noteq> 0 then Inl RuntimeError
      else Inr \<lparr>shape = [n, numel div n], elems = elems out\<rparr>)"

section \<open>RelationalScorer\<close>

text \<open>
  \<^verbatim>\<open>RelationalScorer.score_emb\<close>. The base class defines \<^verbatim>\<open>score_emb_spo\<close> by calling
  \<^verbatim>\<open>score_emb\<close> with \<^verbatim>\<open>"spo"\<close> and \<^verbatim>\<open>score_emb\<close> by calling \<^verbatim>\<open>score_emb_spo\<close>; a concrete
  scorer overrides \<^verbatim>\<open>score_emb_spo\<close>, which is therefore the first argument here.
\<close>

definition score_emb ::
  "('a tensor \<Rightarrow> 'a tensor \<Rightarrow> 'a tensor \<Rightarrow> error + 'b tensor) \<Rightarrow>
   'a tensor \<Rightarrow> 'a tensor \<Rightarrow> 'a tensor \<Rightarrow> string \<Rightarrow> error + 'b tensor" where
  \<open>score_emb score_emb_spo s_emb p_emb o_emb combine =
     and_then (size0 p_emb) (\<lambda>n.
     and_then
       (if combine = ''spo'' then
          and_then (size0 s_emb) (\<lambda>n_s.
          if n_s \<noteq> n then Inl AssertionError
          else and_then (size0 o_emb) (\<lambda>n_o.
          if n_o \<noteq> n then Inl AssertionError
          else score_emb_spo s_emb p_emb o_emb))
        else if combine = ''sp*'' then
          and_then (size0 s_emb) (\<lambda>n_s.
          if n_s \<noteq> n then Inl AssertionError
          else and_then (size0 o_emb) (\<lambda>n_o.
          and_then (repeat_interleave s_emb n_o) (\<lambda>s_embs.
          and_then (repeat_interleave p_emb n_o) (\<lambda>p_embs.
          and_then (repeat o_emb n) (\<lambda>o_embs.
          score_emb_spo s_embs p_embs o_embs)))))
        else if combine = ''*po'' then
          and_then (size0 o_emb) (\<lambda>n_o.
          if n_o \<noteq> n then Inl AssertionError
          else and_then (size0 s_emb) (\<lambda>n_s.
          and_then (repeat s_emb n) (\<lambda>s_embs.
          and_then (repeat_interleave p_emb n_s) (\<lambda>p_embs.
          and_then (repeat_interleave o_emb n_s) (\<lambda>o_embs.
          score_emb_spo s_embs p_embs o_embs)))))
        else Inl (ValueError ''cannot handle combine="{}".format(combine)''))
       (\<lambda>out. view out n))\<close>

text \<open>
  The contract the docstring of \<^verbatim>\<open>score_emb_spo\<close> sets for an override: on batches of sizes
  \<open>n \<times> d_s\<close>, \<open>n \<times> d_p\<close> and \<open>n \<times> d_o\<close> it returns an \<open>n \<times> 1\<close> tensor whose \<open>i\<close>-th
  entry is the score \<open>f\<close> of the triple of \<open>i\<close>-th rows. Nothing is asked of the override on
  batches of other widths, where a concrete scorer may fail.
\<close>

definition rowwise ::
  "('a tensor \<Rightarrow> 'a tensor \<Rightarrow> 'a tensor \<Rightarrow> error + 'b tensor) \<Rightarrow>
   ('a list \<Rightarrow> 'a list \<Rightarrow> 'a list \<Rightarrow> 'b) \<Rightarrow> nat \<Rightarrow> nat \<Rightarrow> nat \<Rightarrow> bool" where
  "rowwise prim f d_s d_p d_o \<longleftrightarrow>
     (\<forall>s p t n.
        wf_tensor s \<and> shape s = [n, d_s] \<and> wf_tensor p \<and> shape p = [n, d_p] \<and>
        wf_tensor t \<and> shape t = [n, d_o] \<longrightarrow>
        prim s p t =
          Inr \<lparr>shape = [n, 1],
               elems = map (\<lambda>i. f (row s i) (row p i) (row t i)) [0..<n]\<rparr>)"

text \<open>
  A scorer given by a formula on one triple of rows, and the formula of the worked example:
  the sum of three one-dimensional embeddings.
\<close>

definition score_rows ::
  "('a list \<Rightarrow> 'a list \<Rightarrow> 'a list \<Rightarrow> 'b) \<Rightarrow>
   'a tensor \<Rightarrow> 'a tensor \<Rightarrow> 'a tensor \<Rightarrow> error + 'b tensor" where
  "score_rows f s p t =
     and_then (size0 s) (\<lambda>n_s.
     and_then (size0 p) (\<lambda>n_p.
     and_then (size0 t) (\<lambda>n_o.
     if n_s = n_p \<and> n_o = n_p
     then Inr \<lparr>shape = [n_p, 1],
               elems = map (\<lambda>i. f (row s i) (row p i) (row t i)) [0..<n_p]\<rparr>
     else Inl RuntimeError)))"

definition sum3 :: "int list \<Rightarrow> int list \<Rightarrow> int list \<Rightarrow> int" where
  "sum3 x y z = sum_list x + sum_list y + sum_list z"

text \<open>The batches of the worked example: entities \<open>1, 2, 3\<close> and relations \<open>10, 100\<close>.\<close>

definition ex_entities :: "int tensor" where
  "ex_entities = \<lparr>shape = [3, 1], elems = [1, 2, 3]\<rparr>"

definition ex_relations :: "int tensor" where
  "ex_relations = \<lparr>shape = [2, 1], elems = [10, 100]\<rparr>"

definition ex_s :: "int tensor" where
  "ex_s = \<lparr>shape = [1, 1], elems = [1]\<rparr>"

definition ex_p :: "int tensor" where
  "ex_p = \<lparr>shape = [1, 1], elems = [100]\<rparr>"

definition ex_o :: "int tensor" where
  "ex_o = \<lparr>shape = [1, 1], elems = [3]\<rparr>"

definition ex_empty :: "int tensor" where
  "ex_empty = \<lparr>shape = [0, 1], elems = []\<rparr>"

text \<open>Batches of two rows: the entities \<open>1, 2\<close> and the entities \<open>3, 1\<close>.\<close>

definition ex_s2 :: "int tensor" where
  "ex_s2 = \<lparr>shape = [2, 1], elems = [1, 2]\<rparr>"

definition ex_o2 :: "int tensor" where
  "ex_o2 = \<lparr>shape = [2, 1], elems = [3, 1]\<rparr>"

section \<open>KgeModel\<close>

text \<open>
  \<^verbatim>\<open>torch.cat((a, b), dim=1)\<close> on tensors of at least two dimensions whose shapes agree
  outside dimension 1: row \<open>i\<close> of the result is row \<open>i\<close> of \<open>a\<close> followed by row \<open>i\<close> of
  \<open>b\<close>. Two one-dimensional tensors have no dimension 1 (\<^verbatim>\<open>IndexError\<close>); shapes that do not
  fit are refused. The arguments of \<open>cat1\<close> in this file are results of \<open>view\<close>, which are
  two-dimensional.
\<close>

definition cat1 :: "'a tensor \<Rightarrow> 'a tensor \<Rightarrow> error + 'a tensor" where
  "cat1 a b =
     (case (shape a, shape b) of
        (n # ka # ra, m # kb # rb) \<Rightarrow>
          if n = m \<and> ra = rb
          then Inr \<lparr>shape = n # (ka + kb) # ra,
                    elems = concat (map (\<lambda>i. row a i @ row b i) [0..<n])\<rparr>
          else Inl RuntimeError
      | ([ka], [kb]) \<Rightarrow> Inl IndexError
      | _ \<Rightarrow> Inl RuntimeError)"

text \<open>
  \<^verbatim>\<open>KgeEmbedder.embed\<close> and \<^verbatim>\<open>embed_all\<close> raise \<^verbatim>\<open>NotImplementedError\<close> in the base class;
  a concrete embedder supplies them. The model holds its embedders by reference, so that the
  test \<^verbatim>\<open>self.get_s_embedder() is self.get_o_embedder()\<close> is a comparison of references.
\<close>

record 'a embedder_methods =
  embed :: "int list \<Rightarrow> error + 'a tensor"
  embed_all :: "error + 'a tensor"

record ('a, 'b) KgeModel =
  embedders :: "nat \<Rightarrow> 'a embedder_methods"
  entity_embedder :: nat
  relation_embedder :: nat
  scorer :: "'a tensor \<Rightarrow> 'a tensor \<Rightarrow> 'a tensor \<Rightarrow> error + 'b tensor"

definition get_s_embedder :: "('a, 'b) KgeModel \<Rightarrow> nat" where
  "get_s_embedder m = entity_embedder m"

definition get_o_embedder :: "('a, 'b) KgeModel \<Rightarrow> nat" where
  "get_o_embedder m = entity_embedder m"

definition get_p_embedder :: "('a, 'b) KgeModel \<Rightarrow> nat" where
  "get_p_embedder m = relation_embedder m"

definition score_spo ::
  "('a, 'b) KgeModel \<Rightarrow> int list \<Rightarrow> int list \<Rightarrow> int list \<Rightarrow> error + 'b tensor" where
  "score_spo m s p ob =
     and_then (embed (embedders m (get_s_embedder m)) s) (\<lambda>s_emb.
     and_then (embed (embedders m (get_p_embedder m)) p) (\<lambda>p_emb.
     and_then (embed (embedders m (get_o_embedder m)) ob) (\<lambda>o_emb.
     score_emb (scorer m) s_emb p_emb o_emb ''spo'')))"

definition score_sp ::
  "('a, 'b) KgeModel \<Rightarrow> int list \<Rightarrow> int list \<Rightarrow> int list option \<Rightarrow> error + 'b tensor" where
  "score_sp m s p ob =
     and_then (embed (embedders m (get_s_embedder m)) s) (\<lambda>s_emb.
     and_then (embed (embedders m (get_p_embedder m)) p) (\<lambda>p_emb.
     and_then
       (case ob of
          None \<Rightarrow> embed_all (embedders m (get_o_embedder m))
        | Some idx \<Rightarrow> embed (embedders m (get_o_embedder m)) idx) (\<lambda>o_emb.
     score_emb (scorer m) s_emb p_emb o_emb ''sp*'')))"

definition score_po ::
  "('a, 'b) KgeModel \<Rightarrow> int list \<Rightarrow> int list \<Rightarrow> int list option \<Rightarrow> error + 'b tensor" where
  "score_po m p ob s =
     and_then
       (case s of
          None \<Rightarrow> embed_all (embedders m (get_s_embedder m))
        | Some idx \<Rightarrow> embed (embedders m (get_s_embedder m)) idx) (\<lambda>s_emb.
     and_then (embed (embedders m (get_o_embedder m)) ob) (\<lambda>o_emb.
     and_then (embed (embedders m (get_p_embedder m)) p) (\<lambda>p_emb.
     score_emb (scorer m) s_emb p_emb o_emb ''*po'')))"

definition score_sp_po ::
  "('a, 'b) KgeModel \<Rightarrow> int list \<Rightarrow> int list \<Rightarrow> int list \<Rightarrow> error + 'b tensor" where
  "score_sp_po m s p ob =
     and_then (embed (embedders m (get_s_embedder m)) s) (\<lambda>s_emb.
     and_then (embed (embedders m (get_p_embedder m)) p) (\<lambda>p_emb.
     and_then (embed (embedders m (get_o_embedder m)) ob) (\<lambda>o_emb.
     and_then
       (if get_s_embedder m = get_o_embedder m then
          and_then (embed_all (embedders m (get_s_embedder m))) (\<lambda>all_entities.
          and_then (score_emb (scorer m) s_emb p_emb all_entities ''sp*'') (\<lambda>sp_scores.
          and_then (score_emb (scorer m) all_entities p_emb o_emb ''*po'') (\<lambda>po_scores.
          Inr (sp_scores, po_scores))))
        else
          and_then (embed_all (embedders m (get_o_embedder m))) (\<lambda>all_objects.
          and_then (score_emb (scorer m) s_emb p_emb all_objects ''sp*'') (\<lambda>sp_scores.
          and_then (embed_all (embedders m (get_s_embedder m))) (\<lambda>all_subjects.
          and_then (score_emb (scorer m) all_subjects p_emb o_emb ''*po'') (\<lambda>po_scores.
          Inr (sp_scores, po_scores))))))
       (\<lambda>(sp_scores, po_scores). cat1 sp_scores po_scores))))"

text \<open>
  Modelled from the spec: the concrete embedders are not part of this file. Section 4.1 of the
  specification gives their contract: \<open>embed\<close> returns one row of the table per input index,
  in input order, and fails with an index error if an index is outside \<open>[0, vocabulary_size)\<close>;
  \<open>embed_all\<close> returns the whole table.
\<close>

definition lookup_embedder :: "'a tensor \<Rightarrow> 'a embedder_methods" where
  "lookup_embedder table =
     \<lparr>embed = (\<lambda>idx.
        case shape table of
          [] \<Rightarrow> Inl IndexError
        | vocabulary_size # d \<Rightarrow>
            if list_all (\<lambda>i. 0 \<le> i \<and> i < int vocabulary_size) idx
            then Inr \<lparr>shape = length idx # d,
                      elems = concat (map (\<lambda>i. row table (nat i)) idx)\<rparr>
            else Inl IndexError),
      embed_all = Inr table\<rparr>"

text \<open>The model of the worked example: embedder 0 for the entities, embedder 1 for the relations.\<close>

definition ex_model :: "(int, int) KgeModel" where
  "ex_model =
     \<lparr>embedders = (\<lambda>r. if r = 0 then lookup_embedder ex_entities else lookup_embedder ex_relations),
      entity_embedder = 0,
      relation_embedder = 1,
      scorer = score_rows sum3\<rparr>"

section \<open>Config\<close>

text \<open>
  Modelled from the spec: the class \<^verbatim>\<open>Config\<close> is imported from the package and is not part of
  this file. Sections 2 and 6 of the specification describe it as a hierarchical key-value
  store with dotted paths that supports \<open>get(key)\<close> (fails with a missing-key error if
  absent), \<open>set(key, value)\<close> (fails with a type/schema error if the value is invalid for that
  key), \<open>clone()\<close> (an independent copy) and the enumeration of a subtree into a flat
  key-to-value mapping.

  The options of one \<^verbatim>\<open>Config\<close> object are an insertion-ordered dictionary from full dotted
  paths to leaf values. A float is carried as its 64 bits; no arithmetic is done on it.
\<close>

datatype cvalue = CStr string | CInt int | CFloat "64 word" | CBool bool

datatype vtype = TStr | TInt | TFloat | TBool

fun type_of :: "cvalue \<Rightarrow> vtype" where
  "type_of (CStr _) = TStr"
| "type_of (CInt _) = TInt"
| "type_of (CFloat _) = TFloat"
| "type_of (CBool _) = TBool"

type_synonym options = "(string \<times> cvalue) list"

text \<open>What \<open>get\<close> returns: the value of a leaf, or the dictionary below an inner node.\<close>

datatype cnode = Leaf cvalue | Subtree options

text \<open>
  \<^verbatim>\<open>Config\<close> objects are mutable and shared, so they live in a store and are passed by
  reference (an index into the store).
\<close>

type_synonym store = "options list"

text \<open>Python's \<^verbatim>\<open>d[k] = v\<close> and \<^verbatim>\<open>del d[k]\<close> on an insertion-ordered dictionary.\<close>

fun dict_set :: "('k \<times> 'v) list \<Rightarrow> 'k \<Rightarrow> 'v \<Rightarrow> ('k \<times> 'v) list" where
  "dict_set [] k v = [(k, v)]"
| "dict_set ((k', v') # d) k v = (if k' = k then (k, v) # d else (k', v') # dict_set d k v)"

definition dict_del :: "('k \<times> 'v) list \<Rightarrow> 'k \<Rightarrow> error + ('k \<times> 'v) list" where
  "dict_del d k =
     (if k \<in> fst ` set d then Inr (filter (\<lambda>(k', v'). k' \<noteq> k) d) else Inl KeyError)"

text \<open>
  Modelled from the spec: the entries below the inner node \<open>key\<close>, named by the rest of
  their path.
\<close>

definition subtree :: "options \<Rightarrow> string \<Rightarrow> options" where
  "subtree opts key =
     map (\<lambda>(k, v). (drop (length key + 1) k, v))
       (filter (\<lambda>(k, v). take (length key + 1) k = key @ ''.'') opts)"

text \<open>A key is present when it names a leaf or an inner node.\<close>

definition has_key :: "options \<Rightarrow> string \<Rightarrow> bool" where
  "has_key opts key \<longleftrightarrow> map_of opts key \<noteq> None \<or> subtree opts key \<noteq> []"

text \<open>Modelled from the spec: \<open>get(key)\<close> fails with a missing-key error if the key is absent.\<close>

definition Config_get :: "store \<Rightarrow> nat \<Rightarrow> string \<Rightarrow> error + cnode" where
  "Config_get h c key =
     (case map_of (h ! c) key of
        Some v \<Rightarrow> Inr (Leaf v)
      | None \<Rightarrow>
          if subtree (h ! c) key = [] then Inl KeyError
          else Inr (Subtree (subtree (h ! c) key)))"

text \<open>
  Modelled from the spec: \<open>set(key, value)\<close> fails with a type/schema error if the value is
  invalid for that key, that is (section 4.1) unless the key is present and holds a value of
  the same type. The source catches the error as \<^verbatim>\<open>ValueError\<close> and replaces its message,
  which is left empty here. A successful \<open>set\<close> changes the object in place.
\<close>

definition valid_option :: "options \<Rightarrow> string \<Rightarrow> cvalue \<Rightarrow> bool" where
  "valid_option opts key v =
     (case map_of opts key of None \<Rightarrow> False | Some cur \<Rightarrow> type_of cur = type_of v)"

definition Config_set :: "store \<Rightarrow> nat \<Rightarrow> string \<Rightarrow> cvalue \<Rightarrow> error + store" where
  "Config_set h c key v =
     (if valid_option (h ! c) key v then Inr (h[c := dict_set (h ! c) key v])
      else Inl (ValueError []))"

text \<open>Modelled from the spec: \<open>clone()\<close> is an independent copy, a new object of the store.\<close>

definition Config_clone :: "store \<Rightarrow> nat \<Rightarrow> store \<times> nat" where
  "Config_clone h c = (h @ [h ! c], length h)"

text \<open>
  Modelled from the spec: \<open>Config.flatten\<close> enumerates a subtree into a new flat mapping; a
  leaf is not a dictionary and cannot be enumerated.
\<close>

definition Config_flatten :: "cnode \<Rightarrow> error + options" where
  "Config_flatten nd = (case nd of Subtree opts \<Rightarrow> Inr opts | Leaf v \<Rightarrow> Inl TypeError)"

section \<open>KgeEmbedder\<close>

record KgeEmbedder =
  config :: nat
  configuration_key :: string
  embedder_type :: cnode
  dim :: "cnode option"

text \<open>\<^verbatim>\<open>x + s\<close> for a value \<open>x\<close> read from the configuration: defined on strings only.\<close>

definition str_add :: "cnode \<Rightarrow> string \<Rightarrow> error + string" where
  "str_add x s = (case x of Leaf (CStr t) \<Rightarrow> Inr (t @ s) | _ \<Rightarrow> Inl TypeError)"

definition get_option :: "store \<Rightarrow> KgeEmbedder \<Rightarrow> string \<Rightarrow> error + cnode" where
  "get_option h self name =
     (case Config_get h (config self) (configuration_key self @ ''.'' @ name) of
        Inl KeyError \<Rightarrow>
          and_then (str_add (embedder_type self) (''.'' @ name)) (\<lambda>key.
          Config_get h (config self) key)
      | r \<Rightarrow> r)"

text \<open>
  The loop of \<^verbatim>\<open>KgeEmbedder.__init__\<close> over \<^verbatim>\<open>custom_options.items()\<close>: every option is set
  in \<open>dummy_config\<close>; a \<^verbatim>\<open>ValueError\<close> of \<open>set\<close> is caught and raised again under the
  constructor's own message, any other exception passes through.
\<close>

fun validate :: "store \<Rightarrow> nat \<Rightarrow> cnode \<Rightarrow> string \<Rightarrow> options \<Rightarrow> store \<times> (error + unit)" where
  "validate h dummy_config et ck [] = (h, Inr ())"
| "validate h dummy_config et ck ((key, val) # rest) =
     (case str_add et (''.'' @ key) of
        Inl e \<Rightarrow> (h, Inl e)
      | Inr k \<Rightarrow>
          (case Config_set h dummy_config k val of
             Inl (ValueError _) \<Rightarrow>
               (h, Inl (ValueError (''key '' @ ck @ ''.'' @ key @ '' invalid or of incorrect type'')))
           | Inl e \<Rightarrow> (h, Inl e)
           | Inr h' \<Rightarrow> validate h' dummy_config et ck rest))"

text \<open>
  \<^verbatim>\<open>KgeEmbedder.__init__\<close>, returning the store it leaves behind and the embedder or the
  exception. The fields \<^verbatim>\<open>dataset\<close> and \<^verbatim>\<open>meta\<close> of \<^verbatim>\<open>KgeBase\<close> play no part and are left out.
\<close>

definition KgeEmbedder_init :: "store \<Rightarrow> nat \<Rightarrow> string \<Rightarrow> store \<times> (error + KgeEmbedder)" where
  "KgeEmbedder_init h cfg ck =
     (case Config_get h cfg (ck @ ''.type'') of
        Inl e \<Rightarrow> (h, Inl e)
      | Inr et \<Rightarrow>
     (case and_then (Config_get h cfg ck) Config_flatten of
        Inl e \<Rightarrow> (h, Inl e)
      | Inr flat \<Rightarrow>
     (case dict_del flat ''type'' of
        Inl e \<Rightarrow> (h, Inl e)
      | Inr custom_options \<Rightarrow>
     (case Config_clone h cfg of (h1, dummy_config) \<Rightarrow>
     (case validate h1 dummy_config et ck custom_options of
        (h2, Inl e) \<Rightarrow> (h2, Inl e)
      | (h2, Inr _) \<Rightarrow>
          let self = \<lparr>config = cfg, configuration_key = ck, embedder_type = et, dim = None\<rparr>
          in (case get_option h2 self ''dim'' of
                Inl e \<Rightarrow> (h2, Inl e)
              | Inr d \<Rightarrow> (h2, Inr (self\<lparr>dim := Some d\<rparr>))))))))"

text \<open>
  Modelled from the spec: the constructor of a concrete embedder is not part of this file;
  \<^verbatim>\<open>KgeEmbedder.create\<close> calls it with the vocabulary size, which the base constructor does not
  receive. Section 3 of the specification: the embedding table, of shape
  \<open>vocabulary_size \<times> embedding_dim\<close> with a positive \<open>embedding_dim\<close> taken from the
  configuration, is allocated at embedder construction. Sections 4.1 and 8: an offending
  custom option fails construction immediately, before any embedding table is allocated. So
  the constructor runs the base constructor and allocates the table when that has returned.
  The tables live in a store of their own; the embedder holds the index of its table. The
  initial entries are the parameter \<open>fill\<close>, and the error for a dimension that is not a
  positive integer carries no message.
\<close>

definition concrete_embedder_init ::
  "'a \<Rightarrow> store \<Rightarrow> 'a tensor list \<Rightarrow> nat \<Rightarrow> string \<Rightarrow> nat \<Rightarrow>
   (store \<times> 'a tensor list) \<times> (error + KgeEmbedder \<times> nat)" where
  "concrete_embedder_init fill h tables cfg ck vocab_size =
     (case KgeEmbedder_init h cfg ck of
        (h', Inl e) \<Rightarrow> ((h', tables), Inl e)
      | (h', Inr self) \<Rightarrow>
          (case dim self of
             Some (Leaf (CInt d)) \<Rightarrow>
               if 0 < d
               then ((h', tables @ [\<lparr>shape = [vocab_size, nat d],
                                     elems = replicate (vocab_size * nat d) fill\<rparr>]),
                     Inr (self, length tables))
               else ((h', tables), Inl (ValueError []))
           | _ \<Rightarrow> ((h', tables), Inl (ValueError []))))"

text \<open>
  A configuration for the examples: the defaults of \<open>lookup_embedder\<close> and the custom scope
  \<open>m.entity_embedder\<close>, which overrides \<open>dim\<close>.
\<close>

definition ex_options :: options where
  "ex_options =
     [(''lookup_embedder.dim'', CInt 100),
      (''lookup_embedder.initialize'', CStr ''normal''),
      (''m.entity_embedder.type'', CStr ''lookup_embedder''),
      (''m.entity_embedder.dim'', CInt 50)]"

text \<open>The same with one more custom option, which the defaults do not have.\<close>

definition ex_options_bad :: options where
  "ex_options_bad = ex_options @ [(''m.entity_embedder.foo'', CInt 1)]"

text \<open>The embedder that the constructor returns on \<open>ex_options\<close>.\<close>

definition ex_embedder :: KgeEmbedder where
  "ex_embedder =
     \<lparr>config = 0, configuration_key = ''m.entity_embedder'',
      embedder_type = Leaf (CStr ''lookup_embedder''), dim = Some (Leaf (CInt 50))\<rparr>"

section \<open>Lists cut into rows\<close>

lemma take_drop_concat_uniform:
  "\<forall>xs \<in> set xss. length xs = c \<Longrightarrow> i < length xss \<Longrightarrow>
     take c (drop (i * c) (concat xss)) = xss ! i"
proof (induction xss arbitrary: i)
  case Nil then show ?case by simp
next
  case (Cons xs xss)
  show ?case
  proof (cases i)
    case 0 with Cons.prems show ?thesis by simp
  next
    case (Suc j)
    with Cons.prems have "take c (drop (j * c) (concat xss)) = xss ! j"
      by (intro Cons.IH) auto
    with Suc Cons.prems show ?thesis by simp
  qed
qed

lemma length_row:
  assumes "wf_tensor t" "shape t = a # rest" "i < a"
  shows "length (row t i) = prod_list rest"
proof -
  have "i * prod_list rest + prod_list rest \<le> a * prod_list rest"
    using assms(3) by (metis Suc_leI mult_Suc mult_le_mono1 add.commute)
  with assms show ?thesis by (simp add: row_def wf_tensor_def Let_def)
qed

lemma nth_concat_replicate_blocks:
  "r < a * k \<Longrightarrow> concat (map (\<lambda>i. replicate k (g i)) [0..<a]) ! r = g (r div k)"
proof (induction a)
  case 0 then show ?case by simp
next
  case (Suc a)
  have len: "length (concat (map (\<lambda>i. replicate k (g i)) [0..<a])) = a * k"
    by (induction a) simp_all
  show ?case
  proof (cases "r < a * k")
    case True
    with Suc.IH len show ?thesis by (simp add: nth_append)
  next
    case False
    with Suc.prems have "r - a * k < k" by simp
    moreover from False Suc.prems have "r div k = a"
      by (metis (no_types, lifting) div_nat_eqI mult.commute not_less)
    ultimately show ?thesis using False len by (simp add: nth_append)
  qed
qed

lemma length_concat_replicate_blocks:
  "length (concat (map (\<lambda>i. replicate k (g i)) [0..<a])) = a * k"
  by (induction a) simp_all

lemma concat_concat_replicate:
  "concat (map (\<lambda>i. concat (replicate k (g i))) is) =
     concat (concat (map (\<lambda>i. replicate k (g i)) is))"
  by (induction "is") simp_all

lemma take_drop_tiled:
  "length xs = m * c \<Longrightarrow> r < n * m \<Longrightarrow>
     take c (drop (r * c) (concat (replicate n xs))) = take c (drop ((r mod m) * c) xs)"
proof (induction n arbitrary: r)
  case 0 then show ?case by simp
next
  case (Suc n)
  show ?case
  proof (cases "r < m")
    case True
    then have "r * c + c \<le> m * c"
      by (metis Suc_leI mult_Suc mult_le_mono1 add.commute)
    with Suc.prems True show ?thesis by simp
  next
    case False
    then have ge: "m \<le> r" by simp
    with Suc.prems have lt: "r - m < n * m" by simp
    have "drop (r * c) (xs @ concat (replicate n xs)) =
            drop ((r - m) * c) (concat (replicate n xs))"
      using ge Suc.prems(1) by (simp add: diff_mult_distrib mult_le_mono1)
    moreover have "(r - m) mod m = r mod m" using ge by (simp add: le_mod_geq)
    ultimately show ?thesis using Suc.IH[OF Suc.prems(1) lt] by simp
  qed
qed

lemma length_concat_uniform:
  "\<forall>xs \<in> set xss. length xs = c \<Longrightarrow> length (concat xss) = length xss * c"
  by (induction xss) simp_all

section \<open>The two expansions\<close>

lemma repeat_interleave_shape:
  assumes wf: "wf_tensor t" and sh: "shape t = a # rest"
  shows "\<exists>T. repeat_interleave t k = Inr T \<and> shape T = (a * k) # rest \<and> wf_tensor T"
proof -
  let ?xss = "concat (map (\<lambda>i. replicate k (row t i)) [0..<a])"
  have uni: "\<forall>xs \<in> set ?xss. length xs = prod_list rest"
    using length_row[OF wf sh] by auto
  have "length (concat ?xss) = (a * k) * prod_list rest"
    using length_concat_uniform[OF uni] length_concat_replicate_blocks[of k "row t" a] by simp
  then show ?thesis
    by (simp add: repeat_interleave_def sh concat_concat_replicate wf_tensor_def)
qed

lemma row_repeat_interleave:
  assumes wf: "wf_tensor t" and sh: "shape t = a # rest"
    and T: "repeat_interleave t k = Inr T" and r: "r < a * k"
  shows "row T r = row t (r div k)"
proof -
  let ?xss = "concat (map (\<lambda>i. replicate k (row t i)) [0..<a])"
  have T': "T = \<lparr>shape = (a * k) # rest, elems = concat ?xss\<rparr>"
    using T by (simp add: repeat_interleave_def sh concat_concat_replicate)
  have uni: "\<forall>xs \<in> set ?xss. length xs = prod_list rest"
    using length_row[OF wf sh] by auto
  have len: "length ?xss = a * k" by (rule length_concat_replicate_blocks)
  have "row T r = ?xss ! r"
    using take_drop_concat_uniform[OF uni, of r] r len by (simp add: row_def T')
  also have "\<dots> = row t (r div k)" using r by (rule nth_concat_replicate_blocks)
  finally show ?thesis .
qed

lemma repeat_shape:
  assumes wf: "wf_tensor t" and sh: "shape t = [a, b]"
  shows "\<exists>T. repeat t n = Inr T \<and> shape T = [n * a, b] \<and> wf_tensor T"
proof -
  have len: "length (elems t) = a * b" using wf sh by (simp add: wf_tensor_def)
  have "length (concat (replicate n (elems t))) = n * (a * b)"
    using len by (induction n) simp_all
  then show ?thesis by (simp add: repeat_def sh wf_tensor_def)
qed

lemma row_repeat:
  assumes wf: "wf_tensor t" and sh: "shape t = [a, b]"
    and T: "repeat t n = Inr T" and r: "r < n * a"
  shows "row T r = row t (r mod a)"
proof -
  have T': "T = \<lparr>shape = [n * a, b], elems = concat (replicate n (elems t))\<rparr>"
    using T by (simp add: repeat_def sh)
  have len: "length (elems t) = a * b" using wf sh by (simp add: wf_tensor_def)
  show ?thesis using take_drop_tiled[OF len r] by (simp add: row_def sh T')
qed

lemma view_rowwise_result:
  assumes "0 < n"
  shows "view \<lparr>shape = [n * k, 1], elems = map g [0..<n * k]\<rparr> n =
           Inr \<lparr>shape = [n, k], elems = map g [0..<n * k]\<rparr>"
  using assms by (simp add: view_def)

lemma index_in_block: "i < n \<Longrightarrow> j < k \<Longrightarrow> i * k + j < n * (k::nat)"
proof -
  assume "i < n" "j < k"
  then have "i * k + j < i * k + k" by simp
  also have "\<dots> = Suc i * k" by simp
  also have "\<dots> \<le> n * k" using \<open>i < n\<close> by (intro mult_le_mono1) simp
  finally show ?thesis .
qed

section \<open>Properties of RelationalScorer.score_emb\<close>

text \<open>
  Mode \<^verbatim>\<open>"sp*"\<close> on batches \<open>s_emb\<close> and \<open>p_emb\<close> of \<open>n \<ge> 1\<close> rows each and a batch \<open>o_emb\<close> of
  \<open>n_o\<close> rows: the rows of \<open>s_emb\<close> and \<open>p_emb\<close> are each repeated \<open>n_o\<close> times contiguously
  (row \<open>r\<close> of the expansion is row \<open>r div n_o\<close>), \<open>o_emb\<close> is tiled whole \<open>n\<close> times (row \<open>r\<close>
  is row \<open>r mod n_o\<close>), the aligned batches go to the SPO primitive and its flat result is
  viewed row-major; when the primitive scores row-wise by \<open>f\<close>, the result is an
  \<open>n \<times> n_o\<close> matrix whose entry \<open>(i, j)\<close> is \<open>f s\<^sub>i p\<^sub>i o\<^sub>j\<close>.
\<close>

lemma sp_star_expansion:
  assumes prim: "rowwise prim f d_s d_p d_o"
    and s: "wf_tensor s_emb" "shape s_emb = [n, d_s]"
    and p: "wf_tensor p_emb" "shape p_emb = [n, d_p]"
    and ob: "wf_tensor o_emb" "shape o_emb = [n_o, d_o]"
    and n: "0 < n"
  shows "\<exists>s_embs p_embs o_embs out.
           repeat_interleave s_emb n_o = Inr s_embs \<and>
           repeat_interleave p_emb n_o = Inr p_embs \<and>
           repeat o_emb n = Inr o_embs \<and>
           (\<forall>r < n * n_o. row s_embs r = row s_emb (r div n_o) \<and>
                          row p_embs r = row p_emb (r div n_o) \<and>
                          row o_embs r = row o_emb (r mod n_o)) \<and>
           score_emb prim s_emb p_emb o_emb ''sp*'' =
             and_then (prim s_embs p_embs o_embs) (\<lambda>flat. view flat n) \<and>
           score_emb prim s_emb p_emb o_emb ''sp*'' = Inr out \<and>
           shape out = [n, n_o] \<and> wf_tensor out \<and>
           (\<forall>i < n. \<forall>j < n_o.
              entry out i j = f (row s_emb i) (row p_emb i) (row o_emb j))"
proof -
  obtain S where S: "repeat_interleave s_emb n_o = Inr S" "shape S = [n * n_o, d_s]"
      "wf_tensor S"
    using repeat_interleave_shape[OF s] by blast
  obtain P where P: "repeat_interleave p_emb n_o = Inr P" "shape P = [n * n_o, d_p]"
      "wf_tensor P"
    using repeat_interleave_shape[OF p] by blast
  obtain O' where O': "repeat o_emb n = Inr O'" "shape O' = [n * n_o, d_o]" "wf_tensor O'"
    using repeat_shape[OF ob] by blast
  let ?g = "\<lambda>r. f (row S r) (row P r) (row O' r)"
  let ?out = "\<lparr>shape = [n, n_o], elems = map ?g [0..<n * n_o]\<rparr>"
  have rows: "row S r = row s_emb (r div n_o) \<and> row P r = row p_emb (r div n_o) \<and>
              row O' r = row o_emb (r mod n_o)" if "r < n * n_o" for r
    using that row_repeat_interleave[OF s S(1)] row_repeat_interleave[OF p P(1)]
      row_repeat[OF ob O'(1)] by simp
  have flat: "prim S P O' = Inr \<lparr>shape = [n * n_o, 1], elems = map ?g [0..<n * n_o]\<rparr>"
    using prim S(2,3) P(2,3) O'(2,3) by (simp add: rowwise_def)
  have unfold: "score_emb prim s_emb p_emb o_emb ''sp*'' =
                  and_then (prim S P O') (\<lambda>flat. view flat n)"
    using s(2) p(2) ob(2) S(1) P(1) O'(1) by (simp add: score_emb_def and_then_def size0_def)
  have res: "score_emb prim s_emb p_emb o_emb ''sp*'' = Inr ?out"
    unfolding unfold flat using view_rowwise_result[OF n] by (simp add: and_then_def)
  have ent: "entry ?out i j = f (row s_emb i) (row p_emb i) (row o_emb j)"
    if "i < n" "j < n_o" for i j
  proof -
    have lt: "i * n_o + j < n * n_o" using that by (rule index_in_block)
    have "entry ?out i j = ?g (i * n_o + j)" using lt by (simp add: entry_def)
    also have "\<dots> = f (row s_emb i) (row p_emb i) (row o_emb j)"
      using rows[OF lt] that by simp
    finally show ?thesis .
  qed
  have "wf_tensor ?out" by (simp add: wf_tensor_def)
  with S(1) P(1) O'(1) rows unfold res ent show ?thesis
    by (intro exI[of _ S] exI[of _ P] exI[of _ O'] exI[of _ ?out]) simp
qed

lemma rowwise_score_rows: "rowwise (score_rows f) f d_s d_p d_o"
  by (simp add: rowwise_def score_rows_def and_then_def size0_def)

text \<open>
  The worked example of the specification, \<open>score_sp([0], [1])\<close> on the embedding level, and
  a batch of two rows against the three entities, where repeating rows and tiling the batch
  differ.
\<close>

lemma score_emb_example_sp:
  "score_emb (score_rows sum3) ex_s ex_p ex_entities ''sp*'' =
     Inr \<lparr>shape = [1, 3], elems = [102, 103, 104]\<rparr>"
  by (simp add: score_emb_def score_rows_def and_then_def size0_def repeat_def
        repeat_interleave_def view_def row_def sum3_def ex_s_def ex_p_def ex_entities_def upt_rec)

lemma replicate_small: "replicate 2 x = [x, x]" "replicate 3 x = [x, x, x]"
  by (simp_all add: numeral_2_eq_2 numeral_3_eq_3)

lemma score_emb_example_sp2:
  "score_emb (score_rows sum3) ex_s2 ex_relations ex_entities ''sp*'' =
     Inr \<lparr>shape = [2, 3], elems = [12, 13, 14, 103, 104, 105]\<rparr>"
  by (simp add: score_emb_def score_rows_def and_then_def size0_def repeat_def
        repeat_interleave_def view_def row_def sum3_def ex_s2_def ex_relations_def
        ex_entities_def upt_rec replicate_small)

text \<open>
  C1. The docstring of \<^verbatim>\<open>score_emb\<close> promises an \<open>n \<times> n_o\<close> matrix whenever \<open>n_s = n_p = n\<close>.
  With no rows in \<open>s_emb\<close> and \<open>p_emb\<close> (\<open>n = 0\<close>) the call returns no matrix: the expansions
  and the primitive yield empty batches, and \<^verbatim>\<open>view(0, -1)\<close> cannot infer the second
  dimension and raises. This holds whatever the primitive returns.
\<close>

theorem score_emb_sp_star_empty_batch:
  "repeat_interleave ex_empty 3 = Inr ex_empty \<and>
   repeat ex_entities 0 = Inr ex_empty \<and>
   score_rows sum3 ex_empty ex_empty ex_empty = Inr ex_empty \<and>
   view ex_empty 0 = Inl RuntimeError \<and>
   score_emb (score_rows sum3) ex_empty ex_empty ex_entities ''sp*'' = Inl RuntimeError"
  by (simp add: score_emb_def score_rows_def and_then_def size0_def repeat_def
        repeat_interleave_def view_def row_def sum3_def ex_empty_def ex_entities_def)

lemma score_emb_no_rows:
  "size0 p_emb = Inr 0 \<Longrightarrow> \<exists>e. score_emb prim s_emb p_emb o_emb combine = Inl e"
  by (simp add: score_emb_def and_then_def view_def split: sum.splits)

text \<open>
  Mode \<^verbatim>\<open>"*po"\<close> on batches \<open>p_emb\<close> and \<open>o_emb\<close> of \<open>n \<ge> 1\<close> rows each and a batch \<open>s_emb\<close> of
  \<open>n_s\<close> rows: \<open>s_emb\<close> is tiled whole \<open>n\<close> times, the rows of \<open>p_emb\<close> and \<open>o_emb\<close> are each
  repeated \<open>n_s\<close> times contiguously, the aligned batches go to the SPO primitive and its
  flat result is viewed row-major; when the primitive scores row-wise by \<open>f\<close>, the result
  is an \<open>n \<times> n_s\<close> matrix whose entry \<open>(i, j)\<close> is \<open>f s\<^sub>j p\<^sub>i o\<^sub>i\<close>.
\<close>

lemma star_po_expansion:
  assumes prim: "rowwise prim f d_s d_p d_o"
    and s: "wf_tensor s_emb" "shape s_emb = [n_s, d_s]"
    and p: "wf_tensor p_emb" "shape p_emb = [n, d_p]"
    and ob: "wf_tensor o_emb" "shape o_emb = [n, d_o]"
    and n: "0 < n"
  shows "\<exists>s_embs p_embs o_embs out.
           repeat s_emb n = Inr s_embs \<and>
           repeat_interleave p_emb n_s = Inr p_embs \<and>
           repeat_interleave o_emb n_s = Inr o_embs \<and>
           (\<forall>r < n * n_s. row s_embs r = row s_emb (r mod n_s) \<and>
                          row p_embs r = row p_emb (r div n_s) \<and>
                          row o_embs r = row o_emb (r div n_s)) \<and>
           score_emb prim s_emb p_emb o_emb ''*po'' =
             and_then (prim s_embs p_embs o_embs) (\<lambda>flat. view flat n) \<and>
           score_emb prim s_emb p_emb o_emb ''*po'' = Inr out \<and>
           shape out = [n, n_s] \<and> wf_tensor out \<and>
           (\<forall>i < n. \<forall>j < n_s.
              entry out i j = f (row s_emb j) (row p_emb i) (row o_emb i))"
proof -
  obtain S where S: "repeat s_emb n = Inr S" "shape S = [n * n_s, d_s]" "wf_tensor S"
    using repeat_shape[OF s] by blast
  obtain P where P: "repeat_interleave p_emb n_s = Inr P" "shape P = [n * n_s, d_p]"
      "wf_tensor P"
    using repeat_interleave_shape[OF p] by blast
  obtain O' where O': "repeat_interleave o_emb n_s = Inr O'" "shape O' = [n * n_s, d_o]"
      "wf_tensor O'"
    using repeat_interleave_shape[OF ob] by blast
  let ?g = "\<lambda>r. f (row S r) (row P r) (row O' r)"
  let ?out = "\<lparr>shape = [n, n_s], elems = map ?g [0..<n * n_s]\<rparr>"
  have rows: "row S r = row s_emb (r mod n_s) \<and> row P r = row p_emb (r div n_s) \<and>
              row O' r = row o_emb (r div n_s)" if "r < n * n_s" for r
    using that row_repeat[OF s S(1)] row_repeat_interleave[OF p P(1)]
      row_repeat_interleave[OF ob O'(1)] by simp
  have flat: "prim S P O' = Inr \<lparr>shape = [n * n_s, 1], elems = map ?g [0..<n * n_s]\<rparr>"
    using prim S(2,3) P(2,3) O'(2,3) by (simp add: rowwise_def)
  have unfold: "score_emb prim s_emb p_emb o_emb ''*po'' =
                  and_then (prim S P O') (\<lambda>flat. view flat n)"
    using s(2) p(2) ob(2) S(1) P(1) O'(1) by (simp add: score_emb_def and_then_def size0_def)
  have res: "score_emb prim s_emb p_emb o_emb ''*po'' = Inr ?out"
    unfolding unfold flat using view_rowwise_result[OF n] by (simp add: and_then_def)
  have ent: "entry ?out i j = f (row s_emb j) (row p_emb i) (row o_emb i)"
    if "i < n" "j < n_s" for i j
  proof -
    have lt: "i * n_s + j < n * n_s" using that by (rule index_in_block)
    have "entry ?out i j = ?g (i * n_s + j)" using lt by (simp add: entry_def)
    also have "\<dots> = f (row s_emb j) (row p_emb i) (row o_emb i)"
      using rows[OF lt] that by simp
    finally show ?thesis .
  qed
  have "wf_tensor ?out" by (simp add: wf_tensor_def)
  with S(1) P(1) O'(1) rows unfold res ent show ?thesis
    by (intro exI[of _ S] exI[of _ P] exI[of _ O'] exI[of _ ?out]) simp
qed

text \<open>Two \<open>(p, o)\<close> pairs against the three entities as subjects.\<close>

lemma score_emb_example_po2:
  "score_emb (score_rows sum3) ex_entities ex_relations ex_o2 ''*po'' =
     Inr \<lparr>shape = [2, 3], elems = [14, 15, 16, 102, 103, 104]\<rparr>"
  by (simp add: score_emb_def score_rows_def and_then_def size0_def repeat_def
        repeat_interleave_def view_def row_def sum3_def ex_o2_def ex_relations_def
        ex_entities_def upt_rec replicate_small)

text \<open>
  C2. The docstring of \<^verbatim>\<open>score_emb\<close> promises an \<open>n \<times> n_s\<close> matrix whenever \<open>n_p = n_o = n\<close>.
  With no rows in \<open>p_emb\<close> and \<open>o_emb\<close> (\<open>n = 0\<close>) the call returns no matrix, for the same
  reason as in mode \<^verbatim>\<open>"sp*"\<close>: \<^verbatim>\<open>view(0, -1)\<close> raises.
\<close>

theorem score_emb_star_po_empty_batch:
  "repeat ex_entities 0 = Inr ex_empty \<and>
   repeat_interleave ex_empty 3 = Inr ex_empty \<and>
   score_rows sum3 ex_empty ex_empty ex_empty = Inr ex_empty \<and>
   view ex_empty 0 = Inl RuntimeError \<and>
   score_emb (score_rows sum3) ex_entities ex_empty ex_empty ''*po'' = Inl RuntimeError"
  by (simp add: score_emb_def score_rows_def and_then_def size0_def repeat_def
        repeat_interleave_def view_def row_def sum3_def ex_empty_def ex_entities_def)

text \<open>
  C5. A mode other than \<^verbatim>\<open>"spo"\<close>, \<^verbatim>\<open>"sp*"\<close> and \<^verbatim>\<open>"*po"\<close> raises \<^verbatim>\<open>ValueError\<close> and returns
  nothing, but the message does not name the mode: the call of \<^verbatim>\<open>format\<close> is inside the
  string literal, so the message is the same text for \<^verbatim>\<open>"xyz"\<close> and for \<^verbatim>\<open>"s*o"\<close>.
\<close>

theorem score_emb_unsupported_mode:
  \<open>score_emb (score_rows sum3) ex_s ex_p ex_o ''xyz'' =
     Inl (ValueError ''cannot handle combine="{}".format(combine)'') \<and>
   score_emb (score_rows sum3) ex_s ex_p ex_o ''s*o'' =
     Inl (ValueError ''cannot handle combine="{}".format(combine)'')\<close>
  by (simp add: score_emb_def and_then_def size0_def ex_p_def)

lemma score_emb_other_mode:
  assumes \<open>combine \<noteq> ''spo''\<close> \<open>combine \<noteq> ''sp*''\<close> \<open>combine \<noteq> ''*po''\<close> \<open>size0 p_emb = Inr n\<close>
  shows \<open>score_emb prim s_emb p_emb o_emb combine =
           Inl (ValueError ''cannot handle combine="{}".format(combine)'')\<close>
  using assms by (simp add: score_emb_def and_then_def)

text \<open>
  C6. When the row counts violate the requirement of the mode (\<open>n_s = n_p = n_o\<close> for
  \<^verbatim>\<open>"spo"\<close>, \<open>n_s = n_p\<close> for \<^verbatim>\<open>"sp*"\<close>, \<open>n_p = n_o\<close> for \<^verbatim>\<open>"*po"\<close>), the call fails at the
  assertion on the shapes, for every primitive, and returns no matrix.
\<close>

theorem score_emb_row_count_mismatch:
  assumes "shape s_emb = n_s # d_s" "shape p_emb = n_p # d_p" "shape o_emb = n_o # d_o"
    and "combine = ''spo'' \<and> \<not> (n_s = n_p \<and> n_p = n_o) \<or>
         combine = ''sp*'' \<and> n_s \<noteq> n_p \<or>
         combine = ''*po'' \<and> n_p \<noteq> n_o"
  shows "score_emb prim s_emb p_emb o_emb combine = Inl AssertionError"
  using assms by (auto simp add: score_emb_def and_then_def size0_def)

theorem score_emb_row_count_mismatch_witness:
  "shape ex_entities = 3 # [1] \<and> shape ex_p = 1 # [1] \<and> shape ex_o = 1 # [1] \<and>
   score_emb (score_rows sum3) ex_entities ex_p ex_o ''spo'' = Inl AssertionError \<and>
   score_emb (score_rows sum3) ex_entities ex_p ex_o ''sp*'' = Inl AssertionError \<and>
   score_emb (score_rows sum3) ex_s ex_p ex_entities ''*po'' = Inl AssertionError"
proof -
  have sh: "shape ex_entities = 3 # [1]" "shape ex_p = 1 # [1]" "shape ex_o = 1 # [1]" "shape ex_s = 1 # [1]"
    by (simp_all add: ex_entities_def ex_p_def ex_o_def ex_s_def)
  have "score_emb (score_rows sum3) ex_entities ex_p ex_o ''spo'' = Inl AssertionError"
    by (rule score_emb_row_count_mismatch[OF sh(1) sh(2) sh(3)]) simp
  moreover have "score_emb (score_rows sum3) ex_entities ex_p ex_o ''sp*'' = Inl AssertionError"
    by (rule score_emb_row_count_mismatch[OF sh(1) sh(2) sh(3)]) simp
  moreover have "score_emb (score_rows sum3) ex_s ex_p ex_entities ''*po'' = Inl AssertionError"
    by (rule score_emb_row_count_mismatch[OF sh(4) sh(2) sh(1)]) simp
  ultimately show ?thesis using sh by simp
qed

section \<open>Properties of KgeModel\<close>

lemma nth_concat_uniform:
  assumes uni: "\<forall>xs \<in> set xss. length xs = c" and i: "i < length xss" and j: "j < c"
  shows "concat xss ! (i * c + j) = xss ! i ! j"
proof -
  have len: "length (concat xss) = length xss * c" using uni by (rule length_concat_uniform)
  have "i * c \<le> length xss * c" using i by (intro mult_le_mono1) simp
  then have le: "i * c \<le> length (concat xss)" using len by simp
  have "xss ! i ! j = take c (drop (i * c) (concat xss)) ! j"
    using take_drop_concat_uniform[OF uni i] by simp
  also have "\<dots> = concat xss ! (i * c + j)" using j le by simp
  finally show ?thesis by simp
qed

lemma row_nth:
  assumes wf: "wf_tensor t" and sh: "shape t = [n, k]" and i: "i < n" and j: "j < k"
  shows "row t i ! j = entry t i j"
proof -
  have "i * k \<le> n * k" using i by (intro mult_le_mono1) simp
  then have "i * k \<le> length (elems t)" using wf sh by (simp add: wf_tensor_def)
  then show ?thesis using j by (simp add: row_def entry_def sh)
qed

lemma cat1_entries:
  assumes a: "wf_tensor a" "shape a = [n, ka]" and b: "wf_tensor b" "shape b = [n, kb]"
  shows "\<exists>out. cat1 a b = Inr out \<and> shape out = [n, ka + kb] \<and> wf_tensor out \<and>
           (\<forall>i < n. (\<forall>j < ka. entry out i j = entry a i j) \<and>
                    (\<forall>j < kb. entry out i (ka + j) = entry b i j))"
proof -
  let ?xss = "map (\<lambda>i. row a i @ row b i) [0..<n]"
  let ?out = "\<lparr>shape = [n, ka + kb], elems = concat ?xss\<rparr>"
  have la: "length (row a i) = ka" if "i < n" for i
    using length_row[OF a that] by simp
  have lb: "length (row b i) = kb" if "i < n" for i
    using length_row[OF b that] by simp
  have uni: "\<forall>xs \<in> set ?xss. length xs = ka + kb" using la lb by auto
  have out: "cat1 a b = Inr ?out" by (simp add: cat1_def a(2) b(2))
  have wf: "wf_tensor ?out" using length_concat_uniform[OF uni] by (simp add: wf_tensor_def)
  have ent: "entry ?out i j = ?xss ! i ! j" if "i < n" "j < ka + kb" for i j
    using nth_concat_uniform[OF uni, of i j] that by (simp add: entry_def)
  have "entry ?out i j = entry a i j" if "i < n" "j < ka" for i j
    using ent[of i j] that la[of i] row_nth[OF a that] by (simp add: nth_append)
  moreover have "entry ?out i (ka + j) = entry b i j" if "i < n" "j < kb" for i j
    using ent[of i "ka + j"] that la[of i] row_nth[OF b that] by (simp add: nth_append)
  ultimately show ?thesis using out wf by (intro exI[of _ ?out]) simp
qed

lemma score_sp_po_as_halves:
  assumes "embed (embedders m (entity_embedder m)) s = Inr s_emb"
    and "embed (embedders m (relation_embedder m)) p = Inr p_emb"
    and "embed (embedders m (entity_embedder m)) ob = Inr o_emb"
  shows "score_sp_po m s p ob =
           and_then (score_sp m s p None) (\<lambda>sp_scores.
           and_then (score_po m p ob None) (\<lambda>po_scores. cat1 sp_scores po_scores))"
  using assms
  by (simp add: score_sp_po_def score_sp_def score_po_def get_s_embedder_def get_o_embedder_def
        get_p_embedder_def and_then_def split: sum.splits)

text \<open>
  For index sequences \<open>s\<close>, \<open>p\<close>, \<open>ob\<close> that the embedders resolve to batches of
  \<open>n \<ge> 1\<close> rows each, with \<open>E\<close> rows in the full entity table and a primitive that scores
  row-wise: \<open>score_sp_po\<close> returns an \<open>n \<times> 2E\<close> matrix whose columns \<open>[0, E)\<close> are
  \<open>score_sp(s, p)\<close> and whose columns \<open>[E, 2E)\<close> are \<open>score_po(p, o)\<close>, both against the full
  vocabulary; the path that embeds the vocabulary once returns what the two halves computed
  independently and concatenated return.
\<close>

lemma score_sp_po_concat:
  assumes prim: "rowwise (scorer m) f d d_r d"
    and s: "embed (embedders m (entity_embedder m)) s = Inr s_emb"
           "wf_tensor s_emb" "shape s_emb = [n, d]"
    and p: "embed (embedders m (relation_embedder m)) p = Inr p_emb"
           "wf_tensor p_emb" "shape p_emb = [n, d_r]"
    and ob: "embed (embedders m (entity_embedder m)) ob = Inr o_emb"
           "wf_tensor o_emb" "shape o_emb = [n, d]"
    and al: "embed_all (embedders m (entity_embedder m)) = Inr all_emb"
           "wf_tensor all_emb" "shape all_emb = [E, d]"
    and n: "0 < n"
  shows "\<exists>sp_scores po_scores out.
           score_sp m s p None = Inr sp_scores \<and> shape sp_scores = [n, E] \<and>
           score_po m p ob None = Inr po_scores \<and> shape po_scores = [n, E] \<and>
           score_sp_po m s p ob = Inr out \<and> shape out = [n, 2 * E] \<and> wf_tensor out \<and>
           (\<forall>i < n. \<forall>j < E. entry out i j = entry sp_scores i j \<and>
                             entry out i (E + j) = entry po_scores i j) \<and>
           score_sp_po m s p ob =
             and_then (score_sp m s p None) (\<lambda>sp_scores.
             and_then (score_po m p ob None) (\<lambda>po_scores. cat1 sp_scores po_scores))"
proof -
  obtain sp where sp: "score_emb (scorer m) s_emb p_emb all_emb ''sp*'' = Inr sp"
      "shape sp = [n, E]" "wf_tensor sp"
    using sp_star_expansion[OF prim s(2,3) p(2,3) al(2,3) n] by blast
  obtain po where po: "score_emb (scorer m) all_emb p_emb o_emb ''*po'' = Inr po"
      "shape po = [n, E]" "wf_tensor po"
    using star_po_expansion[OF prim al(2,3) p(2,3) ob(2,3) n] by blast
  obtain out where out: "cat1 sp po = Inr out" "shape out = [n, E + E]" "wf_tensor out"
      "\<forall>i < n. (\<forall>j < E. entry out i j = entry sp i j) \<and>
               (\<forall>j < E. entry out i (E + j) = entry po i j)"
    using cat1_entries[OF sp(3,2) po(3,2)] by blast
  have SP: "score_sp m s p None = Inr sp"
    using s(1) p(1) al(1) sp(1)
    by (simp add: score_sp_def get_s_embedder_def get_o_embedder_def get_p_embedder_def and_then_def)
  have PO: "score_po m p ob None = Inr po"
    using ob(1) p(1) al(1) po(1)
    by (simp add: score_po_def get_s_embedder_def get_o_embedder_def get_p_embedder_def and_then_def)
  have halves: "score_sp_po m s p ob =
             and_then (score_sp m s p None) (\<lambda>sp_scores.
             and_then (score_po m p ob None) (\<lambda>po_scores. cat1 sp_scores po_scores))"
    using s(1) p(1) ob(1) by (rule score_sp_po_as_halves)
  have res: "score_sp_po m s p ob = Inr out"
    unfolding halves SP PO using out(1) by (simp add: and_then_def)
  have two: "E + E = 2 * E" by simp
  show ?thesis
    using SP PO sp(2) po(2) res out(2,3,4) halves unfolding two
    by (intro exI[of _ sp] exI[of _ po] exI[of _ out]) simp
qed

lemma ex_model_fields:
  "entity_embedder ex_model = 0" "relation_embedder ex_model = 1"
  "scorer ex_model = score_rows sum3"
  by (simp_all add: ex_model_def)

lemma ex_embed:
  "embed (embedders ex_model 0) [0] = Inr ex_s"
  "embed (embedders ex_model 1) [1] = Inr ex_p"
  "embed (embedders ex_model 0) [2] = Inr ex_o"
  "embed_all (embedders ex_model 0) = Inr ex_entities"
  by (simp_all add: ex_model_def lookup_embedder_def ex_entities_def ex_relations_def row_def
        ex_s_def ex_p_def ex_o_def)

lemma ex_score_spo:
  "score_spo ex_model [0] [1] [2] = score_emb (score_rows sum3) ex_s ex_p ex_o ''spo''"
  by (simp only: score_spo_def get_s_embedder_def get_p_embedder_def get_o_embedder_def
        ex_model_fields ex_embed and_then_def sum.case)

lemma ex_score_emb_spo:
  "score_emb (score_rows sum3) ex_s ex_p ex_o ''spo'' = Inr \<lparr>shape = [1, 1], elems = [104]\<rparr>"
  by (simp add: score_emb_def score_rows_def and_then_def size0_def view_def row_def sum3_def
        ex_s_def ex_p_def ex_o_def)

text \<open>
  C4. \<open>score_spo\<close> returns what \<open>score_emb\<close> returns in mode \<^verbatim>\<open>"spo"\<close>, which ends in
  \<^verbatim>\<open>view(n, -1)\<close>: in the worked example \<open>score_spo([0], [1], [2])\<close> is the \<open>1 \<times> 1\<close> matrix
  \<open>[[104]]\<close>, of shape \<open>(1, 1)\<close>, and not the one-dimensional \<open>[104]\<close> of shape \<open>(1,)\<close>.
\<close>

theorem score_spo_returns_matrix:
  "score_spo ex_model [0] [1] [2] = Inr \<lparr>shape = [1, 1], elems = [104]\<rparr> \<and>
   score_spo ex_model [0] [1] [2] \<noteq> Inr \<lparr>shape = [1], elems = [104]\<rparr>"
  by (simp add: ex_score_spo ex_score_emb_spo)

text \<open>
  In general the result has shape \<open>(n, 1)\<close> and holds the score of the \<open>i\<close>-th rows at
  position \<open>i\<close>, for \<open>n \<ge> 1\<close>; an empty batch raises.
\<close>

lemma score_spo_rows:
  assumes prim: "rowwise (scorer m) f d d_r d"
    and s: "embed (embedders m (entity_embedder m)) s = Inr s_emb"
           "wf_tensor s_emb" "shape s_emb = [n, d]"
    and p: "embed (embedders m (relation_embedder m)) p = Inr p_emb"
           "wf_tensor p_emb" "shape p_emb = [n, d_r]"
    and ob: "embed (embedders m (entity_embedder m)) ob = Inr o_emb"
           "wf_tensor o_emb" "shape o_emb = [n, d]"
    and n: "0 < n"
  shows "score_spo m s p ob =
           Inr \<lparr>shape = [n, 1],
                elems = map (\<lambda>i. f (row s_emb i) (row p_emb i) (row o_emb i)) [0..<n]\<rparr>"
proof -
  have "scorer m s_emb p_emb o_emb =
          Inr \<lparr>shape = [n, 1],
               elems = map (\<lambda>i. f (row s_emb i) (row p_emb i) (row o_emb i)) [0..<n]\<rparr>"
    using prim s(2,3) p(2,3) ob(2,3) by (simp add: rowwise_def)
  then show ?thesis
    using s p ob n
    by (simp add: score_spo_def get_s_embedder_def get_p_embedder_def get_o_embedder_def
          and_then_def score_emb_def size0_def view_def)
qed

lemma score_spo_no_rows:
  assumes "embed (embedders m (relation_embedder m)) p = Inr p_emb" "shape p_emb = 0 # d_r"
  shows "\<exists>e. score_spo m s p ob = Inl e"
  using assms
  by (simp add: score_spo_def get_s_embedder_def get_p_embedder_def get_o_embedder_def
        and_then_def score_emb_def size0_def view_def split: sum.splits)

lemma ex_score_sp_po:
  "score_sp_po ex_model [0] [1] [2] =
     Inr \<lparr>shape = [1, 6], elems = [102, 103, 104, 104, 105, 106]\<rparr>"
  by (simp add: score_sp_po_def get_s_embedder_def get_p_embedder_def get_o_embedder_def
        ex_model_fields ex_embed[unfolded One_nat_def] and_then_def score_emb_def score_rows_def size0_def
        view_def repeat_def repeat_interleave_def cat1_def
        row_def sum3_def ex_s_def ex_p_def ex_o_def ex_entities_def upt_rec)

text \<open>Two triples: the left half is \<open>score_sp\<close>, the right half \<open>score_po\<close>, row by row.\<close>

lemma ex_embed2:
  "embed (embedders ex_model 0) [0, 1] = Inr ex_s2"
  "embed (embedders ex_model 1) [0, 1] = Inr ex_relations"
  "embed (embedders ex_model 0) [2, 0] = Inr ex_o2"
  by (simp_all add: ex_model_def lookup_embedder_def ex_entities_def ex_relations_def row_def
        ex_s2_def ex_o2_def)

lemma ex_cat1:
  "cat1 \<lparr>shape = [2, 3], elems = [12, 13, 14, 103, 104, 105]\<rparr>
        \<lparr>shape = [2, 3], elems = [14, 15, 16, 102, 103, 104::int]\<rparr> =
     Inr \<lparr>shape = [2, 6], elems = [12, 13, 14, 14, 15, 16, 103, 104, 105, 102, 103, 104]\<rparr>"
  by (simp add: cat1_def row_def upt_rec)

lemma ex_score_sp_po2:
  "score_sp_po ex_model [0, 1] [0, 1] [2, 0] =
     Inr \<lparr>shape = [2, 6],
          elems = [12, 13, 14, 14, 15, 16, 103, 104, 105, 102, 103, 104]\<rparr>"
  by (simp only: score_sp_po_def get_s_embedder_def get_p_embedder_def get_o_embedder_def
        ex_model_fields ex_embed ex_embed2 and_then_def sum.case if_True refl
        score_emb_example_sp2 score_emb_example_po2 prod.case ex_cat1)

lemma ex_score_sp2:
  "score_sp ex_model [0, 1] [0, 1] None =
     Inr \<lparr>shape = [2, 3], elems = [12, 13, 14, 103, 104, 105]\<rparr>"
  "score_po ex_model [0, 1] [2, 0] None =
     Inr \<lparr>shape = [2, 3], elems = [14, 15, 16, 102, 103, 104]\<rparr>"
  by (simp_all only: score_sp_def score_po_def get_s_embedder_def get_p_embedder_def
        get_o_embedder_def ex_model_fields ex_embed ex_embed2 and_then_def sum.case
        option.case score_emb_example_sp2 score_emb_example_po2)

lemma ex_embed_empty:
  "embed (embedders ex_model (entity_embedder ex_model)) [] = Inr ex_empty"
  "embed (embedders ex_model (relation_embedder ex_model)) [] = Inr ex_empty"
  by (simp_all add: ex_model_def lookup_embedder_def ex_entities_def ex_relations_def ex_empty_def)

text \<open>
  C3. The docstring of \<^verbatim>\<open>score_sp_po\<close> promises an \<open>n \<times> 2E\<close> matrix for index vectors of
  common size \<open>n\<close>. Empty index sequences (\<open>n = 0\<close>) are resolved to empty batches, on which
  \<open>score_sp_po\<close> returns no matrix: both calls of \<open>score_emb\<close> end in \<^verbatim>\<open>view(0, -1)\<close>, which
  raises.
\<close>

theorem score_sp_po_empty_batch:
  "embed (embedders ex_model (entity_embedder ex_model)) [] = Inr ex_empty \<and>
   embed (embedders ex_model (relation_embedder ex_model)) [] = Inr ex_empty \<and>
   score_sp_po ex_model [] [] [] = Inl RuntimeError"
  by (simp add: ex_embed_empty)
     (simp add: score_sp_po_def get_s_embedder_def get_p_embedder_def get_o_embedder_def
        ex_model_fields and_then_def score_emb_def score_rows_def size0_def
        view_def repeat_def repeat_interleave_def cat1_def lookup_embedder_def ex_model_def
        row_def sum3_def ex_relations_def ex_entities_def upt_rec)

section \<open>Properties of KgeEmbedder\<close>

lemma map_of_dict_set: "map_of (dict_set d k v) = (map_of d)(k \<mapsto> v)"
  by (induction d) (auto simp: fun_eq_iff)

lemma valid_option_dict_set:
  "valid_option d key v \<Longrightarrow> valid_option (dict_set d key v) k' v' = valid_option d k' v'"
  by (auto simp: valid_option_def map_of_dict_set split: option.splits)

lemma Config_get_error: "Config_get h c key = Inl e \<Longrightarrow> e = KeyError"
  by (auto simp: Config_get_def split: option.splits if_splits)

lemma Config_get_has_key:
  "has_key (h ! c) key \<Longrightarrow> \<exists>v. Config_get h c key = Inr v"
  "\<not> has_key (h ! c) key \<Longrightarrow> Config_get h c key = Inl KeyError"
  by (auto simp: Config_get_def has_key_def split: option.splits)

lemma get_option_error:
  "get_option h self name = Inl e \<Longrightarrow> e = KeyError \<or> e = TypeError"
  by (auto simp: get_option_def and_then_def str_add_def
        split: sum.splits error.splits cnode.splits cvalue.splits dest: Config_get_error)

text \<open>
  C8. For an embedder whose type is the string \<open>et\<close> and every option name:
  \<open>get_option\<close> returns the value of the embedder's own scope
  (\<open>configuration_key.name\<close>) when the configuration has that key, otherwise the value of
  the scope of the embedder type (\<open>et.name\<close>), and raises the missing-key error when the
  configuration has neither.
\<close>

theorem get_option_resolution:
  assumes "embedder_type self = Leaf (CStr et)"
  shows "(has_key (h ! config self) (configuration_key self @ ''.'' @ name) \<longrightarrow>
           (\<exists>v. Config_get h (config self) (configuration_key self @ ''.'' @ name) = Inr v \<and>
                get_option h self name = Inr v)) \<and>
         (\<not> has_key (h ! config self) (configuration_key self @ ''.'' @ name) \<and>
          has_key (h ! config self) (et @ ''.'' @ name) \<longrightarrow>
           (\<exists>v. Config_get h (config self) (et @ ''.'' @ name) = Inr v \<and>
                get_option h self name = Inr v)) \<and>
         (\<not> has_key (h ! config self) (configuration_key self @ ''.'' @ name) \<and>
          \<not> has_key (h ! config self) (et @ ''.'' @ name) \<longrightarrow>
           get_option h self name = Inl KeyError)"
proof (intro conjI impI)
  assume own: "has_key (h ! config self) (configuration_key self @ ''.'' @ name)"
  then obtain v where "Config_get h (config self) (configuration_key self @ ''.'' @ name) = Inr v"
    using Config_get_has_key(1) by blast
  then show "\<exists>v. Config_get h (config self) (configuration_key self @ ''.'' @ name) = Inr v \<and>
                get_option h self name = Inr v"
    by (simp add: get_option_def)
next
  assume "\<not> has_key (h ! config self) (configuration_key self @ ''.'' @ name) \<and>
          has_key (h ! config self) (et @ ''.'' @ name)"
  then have own: "Config_get h (config self) (configuration_key self @ ''.'' @ name) = Inl KeyError"
    and "\<exists>v. Config_get h (config self) (et @ ''.'' @ name) = Inr v"
    using Config_get_has_key by blast+
  then obtain v where v: "Config_get h (config self) (et @ ''.'' @ name) = Inr v" by blast
  have "get_option h self name = Inr v"
    using own v assms by (simp add: get_option_def and_then_def str_add_def)
  with v show "\<exists>v. Config_get h (config self) (et @ ''.'' @ name) = Inr v \<and>
                get_option h self name = Inr v" by blast
next
  assume "\<not> has_key (h ! config self) (configuration_key self @ ''.'' @ name) \<and>
          \<not> has_key (h ! config self) (et @ ''.'' @ name)"
  then have "Config_get h (config self) (configuration_key self @ ''.'' @ name) = Inl KeyError"
    and "Config_get h (config self) (et @ ''.'' @ name) = Inl KeyError"
    using Config_get_has_key(2) by blast+
  then show "get_option h self name = Inl KeyError"
    using assms by (simp add: get_option_def and_then_def str_add_def)
qed

text \<open>The validation loop: what it changes, when it fails and with which error.\<close>

lemma validate_frame:
  "validate h dc et ck opts = (h', r) \<Longrightarrow>
     length h' = length h \<and> (\<forall>c. c \<noteq> dc \<longrightarrow> h' ! c = h ! c)"
proof (induction opts arbitrary: h)
  case Nil then show ?case by simp
next
  case (Cons kv opts)
  obtain key val where kv: "kv = (key, val)" by (cases kv)
  show ?case
  proof (cases "str_add et (''.'' @ key)")
    case (Inl e) with Cons.prems kv show ?thesis by simp
  next
    case (Inr k)
    show ?thesis
    proof (cases "Config_set h dc k val")
      case (Inl e)
      with Cons.prems kv Inr show ?thesis by (cases e) auto
    next
      case (Inr h1)
      then have h1: "h1 = h[dc := dict_set (h ! dc) k val]"
        by (simp add: Config_set_def split: if_splits)
      from Cons.prems kv \<open>str_add et (''.'' @ key) = Inr k\<close> Inr
      have "validate h1 dc et ck opts = (h', r)" by simp
      from Cons.IH[OF this] show ?thesis by (simp add: h1)
    qed
  qed
qed

lemma validate_invalid:
  assumes "dc < length h"
    and "\<exists>(k, v) \<in> set opts. \<not> valid_option (h ! dc) (t @ ''.'' @ k) v"
  shows "\<exists>k v. (k, v) \<in> set opts \<and> \<not> valid_option (h ! dc) (t @ ''.'' @ k) v \<and>
           snd (validate h dc (Leaf (CStr t)) ck opts) =
             Inl (ValueError (''key '' @ ck @ ''.'' @ k @ '' invalid or of incorrect type''))"
  using assms
proof (induction opts arbitrary: h)
  case Nil then show ?case by simp
next
  case (Cons kv opts)
  obtain key val where kv: "kv = (key, val)" by (cases kv)
  show ?case
  proof (cases "valid_option (h ! dc) (t @ ''.'' @ key) val")
    case False
    then have "snd (validate h dc (Leaf (CStr t)) ck (kv # opts)) =
             Inl (ValueError (''key '' @ ck @ ''.'' @ key @ '' invalid or of incorrect type''))"
      by (simp add: kv str_add_def Config_set_def)
    with False kv show ?thesis by auto
  next
    case True
    let ?h1 = "h[dc := dict_set (h ! dc) (t @ ''.'' @ key) val]"
    have same: "valid_option (?h1 ! dc) k' v' = valid_option (h ! dc) k' v'" for k' v'
      using Cons.prems(1) True by (simp add: valid_option_dict_set)
    have step: "validate h dc (Leaf (CStr t)) ck (kv # opts) = validate ?h1 dc (Leaf (CStr t)) ck opts"
      using True by (simp add: kv str_add_def Config_set_def)
    have "\<exists>(k, v) \<in> set opts. \<not> valid_option (?h1 ! dc) (t @ ''.'' @ k) v"
      using Cons.prems(2) True kv unfolding same by auto
    moreover have "dc < length ?h1" using Cons.prems(1) by simp
    ultimately obtain k v where "(k, v) \<in> set opts"
        "\<not> valid_option (?h1 ! dc) (t @ ''.'' @ k) v"
        "snd (validate ?h1 dc (Leaf (CStr t)) ck opts) =
             Inl (ValueError (''key '' @ ck @ ''.'' @ k @ '' invalid or of incorrect type''))"
      using Cons.IH[of ?h1] by blast
    then show ?thesis unfolding step same by auto
  qed
qed

lemma validate_all_valid:
  assumes "dc < length h"
    and "\<forall>(k, v) \<in> set opts. valid_option (h ! dc) (t @ ''.'' @ k) v"
  shows "snd (validate h dc (Leaf (CStr t)) ck opts) = Inr ()"
  using assms
proof (induction opts arbitrary: h)
  case Nil then show ?case by simp
next
  case (Cons kv opts)
  obtain key val where kv: "kv = (key, val)" by (cases kv)
  let ?h1 = "h[dc := dict_set (h ! dc) (t @ ''.'' @ key) val]"
  have True: "valid_option (h ! dc) (t @ ''.'' @ key) val" using Cons.prems(2) kv by auto
  have same: "valid_option (?h1 ! dc) k' v' = valid_option (h ! dc) k' v'" for k' v'
    using Cons.prems(1) True by (simp add: valid_option_dict_set)
  have step: "validate h dc (Leaf (CStr t)) ck (kv # opts) = validate ?h1 dc (Leaf (CStr t)) ck opts"
    using True by (simp add: kv str_add_def Config_set_def)
  have "\<forall>(k, v) \<in> set opts. valid_option (?h1 ! dc) (t @ ''.'' @ k) v"
    using Cons.prems(2) unfolding same by auto
  moreover have "dc < length ?h1" using Cons.prems(1) by simp
  ultimately show ?case unfolding step using Cons.IH[of ?h1] by blast
qed

lemma validate_error:
  "snd (validate h dc et ck opts) = Inl e \<Longrightarrow>
     e = TypeError \<or>
     (\<exists>k \<in> fst ` set opts. e = ValueError (''key '' @ ck @ ''.'' @ k @ '' invalid or of incorrect type''))"
proof (induction opts arbitrary: h)
  case Nil then show ?case by simp
next
  case (Cons kv opts)
  obtain key val where kv: "kv = (key, val)" by (cases kv)
  show ?case
  proof (cases "str_add et (''.'' @ key)")
    case (Inl e')
    with Cons.prems kv show ?thesis
      by (auto simp: str_add_def split: cnode.splits cvalue.splits)
  next
    case (Inr k)
    show ?thesis
    proof (cases "Config_set h dc k val")
      case (Inl e')
      then obtain m where "e' = ValueError m" by (auto simp: Config_set_def split: if_splits)
      with Cons.prems kv Inr Inl show ?thesis by auto
    next
      case (Inr h1)
      with Cons.prems kv \<open>str_add et (''.'' @ key) = Inr k\<close>
      have "snd (validate h1 dc et ck opts) = Inl e" by simp
      from Cons.IH[OF this] show ?thesis by auto
    qed
  qed
qed

text \<open>The constructor, once the type entry has been read.\<close>

lemma subtree_member:
  "(k, v) \<in> set opts \<Longrightarrow> take (length key + 1) k = key @ ''.'' \<Longrightarrow>
     (drop (length key + 1) k, v) \<in> set (subtree opts key)"
  by (force simp: subtree_def)

lemma subtree_type_key:
  assumes "map_of opts (ck @ ''.type'') = Some v"
  shows "(''type'', v) \<in> set (subtree opts ck)"
proof -
  have "(ck @ ''.type'', v) \<in> set opts" using assms by (rule map_of_SomeD)
  from subtree_member[OF this, of ck] show ?thesis by simp
qed

lemma Config_get_cong: "h ! c = h' ! c \<Longrightarrow> Config_get h c = Config_get h' c"
  by (rule ext) (simp add: Config_get_def split: option.splits)

lemma get_option_cong:
  "h ! config self = h' ! config self \<Longrightarrow> get_option h self name = get_option h' self name"
  unfolding get_option_def by (simp only: Config_get_cong[of h "config self" h'])

lemma invalid_msg_inj: "a @ ck @ b @ k @ s = a @ ck @ b @ k' @ s \<Longrightarrow> k = k'"
  by simp

lemma init_unfold:
  assumes ty: "map_of (h ! cfg) (ck @ ''.type'') = Some (CStr et)"
    and node: "map_of (h ! cfg) ck = None"
  shows "KgeEmbedder_init h cfg ck =
     (case validate (h @ [h ! cfg]) (length h) (Leaf (CStr et)) ck
             (filter (\<lambda>(k', v'). k' \<noteq> ''type'') (subtree (h ! cfg) ck)) of
        (h2, Inl e) \<Rightarrow> (h2, Inl e)
      | (h2, Inr u) \<Rightarrow>
          (case get_option h2 \<lparr>config = cfg, configuration_key = ck,
                               embedder_type = Leaf (CStr et), dim = None\<rparr> ''dim'' of
             Inl e \<Rightarrow> (h2, Inl e)
           | Inr d \<Rightarrow> (h2, Inr \<lparr>config = cfg, configuration_key = ck,
                               embedder_type = Leaf (CStr et), dim = Some d\<rparr>)))"
proof -
  have mem: "(''type'', CStr et) \<in> set (subtree (h ! cfg) ck)"
    using ty by (rule subtree_type_key)
  then have ne: "subtree (h ! cfg) ck \<noteq> []" by auto
  have g1: "Config_get h cfg (ck @ ''.type'') = Inr (Leaf (CStr et))"
    using ty by (simp add: Config_get_def)
  have g2: "and_then (Config_get h cfg ck) Config_flatten = Inr (subtree (h ! cfg) ck)"
    using node ne by (simp add: Config_get_def and_then_def Config_flatten_def)
  have d: "dict_del (subtree (h ! cfg) ck) ''type'' =
             Inr (filter (\<lambda>(k', v'). k' \<noteq> ''type'') (subtree (h ! cfg) ck))"
    using mem by (force simp: dict_del_def)
  show ?thesis
  proof (cases "validate (h @ [h ! cfg]) (length h) (Leaf (CStr et)) ck
             (filter (\<lambda>(k', v'). k' \<noteq> ''type'') (subtree (h ! cfg) ck))")
    case (Pair h2 r)
    then show ?thesis
      by (cases r)
         (simp_all add: KgeEmbedder_init_def g1 g2 d Config_clone_def Let_def split: sum.splits)
  qed
qed

lemma validate_store:
  assumes "validate (h @ [x]) (length h) et ck opts = (h2, r)"
  shows "\<exists>d. h2 = h @ [d]"
proof -
  from validate_frame[OF assms]
  have len: "length h2 = Suc (length h)"
    and same: "\<And>c. c \<noteq> length h \<Longrightarrow> h2 ! c = (h @ [x]) ! c" by simp_all
  have "h2 = h @ [h2 ! length h]"
  proof (rule nth_equalityI)
    show "length h2 = length (h @ [h2 ! length h])" using len by simp
  next
    fix i assume "i < length h2"
    then show "h2 ! i = (h @ [h2 ! length h]) ! i"
      using len same[of i] by (cases "i = length h") (simp_all add: nth_append)
  qed
  then show ?thesis ..
qed

text \<open>
  C7. When the configuration scope \<open>ck\<close> of the embedder has the string \<open>et\<close> as its type and
  holds a custom option (an entry other than \<open>type\<close>) that is not valid in the scope of the
  embedder type, that is \<open>et.k\<close> is absent or holds a value of another type, the constructor
  fails with the error whose message names \<open>ck\<close> and an offending key (the first one in the
  order of the dictionary). The base constructor leaves the store with one more object, the
  clone of the configuration, and nothing else; the constructor of a concrete embedder fails
  with the same error and the store of embedding tables is as it was: no table has been
  allocated.
\<close>

theorem init_rejects_invalid_option:
  assumes ty: "map_of (h ! cfg) (ck @ ''.type'') = Some (CStr et)"
    and node: "map_of (h ! cfg) ck = None"
    and bad: "(k, v) \<in> set (subtree (h ! cfg) ck)" "k \<noteq> ''type''"
             "\<not> valid_option (h ! cfg) (et @ ''.'' @ k) v"
  shows "\<exists>k' v' d. (k', v') \<in> set (subtree (h ! cfg) ck) \<and> k' \<noteq> ''type'' \<and>
           \<not> valid_option (h ! cfg) (et @ ''.'' @ k') v' \<and>
           KgeEmbedder_init h cfg ck =
             (h @ [d],
              Inl (ValueError (''key '' @ ck @ ''.'' @ k' @ '' invalid or of incorrect type''))) \<and>
           concrete_embedder_init fill h tables cfg ck vocab_size =
             ((h @ [d], tables),
              Inl (ValueError (''key '' @ ck @ ''.'' @ k' @ '' invalid or of incorrect type'')))"
proof -
  let ?h1 = "h @ [h ! cfg]"
  let ?custom = "filter (\<lambda>(k', v'). k' \<noteq> ''type'') (subtree (h ! cfg) ck)"
  have dc: "length h < length ?h1" and clone: "?h1 ! length h = h ! cfg" by simp_all
  have "\<exists>(k, v) \<in> set ?custom. \<not> valid_option (?h1 ! length h) (et @ ''.'' @ k) v"
    using bad unfolding clone by auto
  from validate_invalid[OF dc this, of ck]
  obtain k' v' where k': "(k', v') \<in> set ?custom"
      "\<not> valid_option (h ! cfg) (et @ ''.'' @ k') v'"
      "snd (validate ?h1 (length h) (Leaf (CStr et)) ck ?custom) =
         Inl (ValueError (''key '' @ ck @ ''.'' @ k' @ '' invalid or of incorrect type''))"
    unfolding clone by blast
  obtain h2 r where v: "validate ?h1 (length h) (Leaf (CStr et)) ck ?custom = (h2, r)"
    by (cases "validate ?h1 (length h) (Leaf (CStr et)) ck ?custom")
  from validate_store[OF v] obtain d where d: "h2 = h @ [d]" ..
  have base: "KgeEmbedder_init h cfg ck =
         (h @ [d],
          Inl (ValueError (''key '' @ ck @ ''.'' @ k' @ '' invalid or of incorrect type'')))"
    unfolding init_unfold[OF ty node] using k'(3) v d by simp
  then have "concrete_embedder_init fill h tables cfg ck vocab_size =
         ((h @ [d], tables),
          Inl (ValueError (''key '' @ ck @ ''.'' @ k' @ '' invalid or of incorrect type'')))"
    by (simp add: concrete_embedder_init_def)
  with base k'(1,2) show ?thesis by auto
qed

lemma init_frame:
  assumes "c < length h"
  shows "fst (KgeEmbedder_init h cfg ck) ! c = h ! c"
proof -
  have frame: "h2 ! c = h ! c"
    if "validate (h @ [h ! cfg]) (length h) et ck opts = (h2, r)" for et opts h2 r
    using validate_frame[OF that] assms by (simp add: nth_append)
  show ?thesis
    unfolding KgeEmbedder_init_def Config_clone_def
    by (auto simp: Let_def frame split: sum.splits prod.splits)
qed

text \<open>
  C9. The constructor does not change the configuration it is given: the options are set in
  the clone, a new object of the store, and after the constructor, failed or not, the
  caller's object holds the entries it held before.
\<close>

theorem init_leaves_config_unchanged:
  assumes "cfg < length h"
  shows "fst (KgeEmbedder_init h cfg ck) ! cfg = h ! cfg"
  using assms by (rule init_frame)

lemma init_error:
  assumes "snd (KgeEmbedder_init h cfg ck) = Inl e"
  shows "e = KeyError \<or> e = TypeError \<or>
         (\<exists>k. k \<noteq> ''type'' \<and>
              e = ValueError (''key '' @ ck @ ''.'' @ k @ '' invalid or of incorrect type''))"
proof -
  have val: "e' = TypeError \<or>
         (\<exists>k. k \<noteq> ''type'' \<and>
              e' = ValueError (''key '' @ ck @ ''.'' @ k @ '' invalid or of incorrect type''))"
    if "validate h1 dc et ck (filter (\<lambda>(k', v'). k' \<noteq> ''type'') flat) = (h2, Inl e')"
    for h1 dc et flat h2 e'
  proof -
    from that
    have "snd (validate h1 dc et ck (filter (\<lambda>(k', v'). k' \<noteq> ''type'') flat)) = Inl e'"
      by simp
    from validate_error[OF this] show ?thesis by auto
  qed
  show ?thesis
    using assms
    by (auto simp: KgeEmbedder_init_def Config_clone_def Let_def and_then_def Config_flatten_def
          dict_del_def
          split: sum.splits prod.splits cnode.splits if_splits
          dest: Config_get_error get_option_error val)
qed

text \<open>
  C10. The key \<open>type\<close> is deleted from the custom options before the loop: the constructor
  never fails with the invalid-key error for \<open>type\<close>, and when every other custom option is
  valid the loop passes and the outcome is that of reading \<open>dim\<close>, whether or not the scope
  of the embedder type has a key \<open>type\<close>.
\<close>

theorem type_entry_not_validated:
  "snd (KgeEmbedder_init h cfg ck) \<noteq>
     Inl (ValueError (''key '' @ ck @ ''.'' @ ''type'' @ '' invalid or of incorrect type'')) \<and>
   (cfg < length h \<and>
    map_of (h ! cfg) (ck @ ''.type'') = Some (CStr et) \<and> map_of (h ! cfg) ck = None \<and>
    (\<forall>(k, v) \<in> set (subtree (h ! cfg) ck).
       k \<noteq> ''type'' \<longrightarrow> valid_option (h ! cfg) (et @ ''.'' @ k) v) \<longrightarrow>
    snd (KgeEmbedder_init h cfg ck) =
      (case get_option h \<lparr>config = cfg, configuration_key = ck,
                          embedder_type = Leaf (CStr et), dim = None\<rparr> ''dim'' of
         Inl e \<Rightarrow> Inl e
       | Inr d \<Rightarrow> Inr \<lparr>config = cfg, configuration_key = ck,
                       embedder_type = Leaf (CStr et), dim = Some d\<rparr>))"
proof (intro conjI impI)
  show "snd (KgeEmbedder_init h cfg ck) \<noteq>
     Inl (ValueError (''key '' @ ck @ ''.'' @ ''type'' @ '' invalid or of incorrect type''))"
  proof
    assume "snd (KgeEmbedder_init h cfg ck) =
      Inl (ValueError (''key '' @ ck @ ''.'' @ ''type'' @ '' invalid or of incorrect type''))"
    from init_error[OF this]
    obtain k where "k \<noteq> ''type''"
      "''key '' @ ck @ ''.'' @ ''type'' @ '' invalid or of incorrect type'' =
       ''key '' @ ck @ ''.'' @ k @ '' invalid or of incorrect type''"
      by blast
    then show False using invalid_msg_inj by blast
  qed
next
  assume a: "cfg < length h \<and>
    map_of (h ! cfg) (ck @ ''.type'') = Some (CStr et) \<and> map_of (h ! cfg) ck = None \<and>
    (\<forall>(k, v) \<in> set (subtree (h ! cfg) ck).
       k \<noteq> ''type'' \<longrightarrow> valid_option (h ! cfg) (et @ ''.'' @ k) v)"
  let ?h1 = "h @ [h ! cfg]"
  let ?custom = "filter (\<lambda>(k', v'). k' \<noteq> ''type'') (subtree (h ! cfg) ck)"
  let ?self = "\<lparr>config = cfg, configuration_key = ck,
                 embedder_type = Leaf (CStr et), dim = None\<rparr>"
  obtain h2 r where v: "validate ?h1 (length h) (Leaf (CStr et)) ck ?custom = (h2, r)"
    by (cases "validate ?h1 (length h) (Leaf (CStr et)) ck ?custom")
  have dc: "length h < length ?h1" and clone: "?h1 ! length h = h ! cfg" by simp_all
  have "\<forall>(k, v) \<in> set ?custom. valid_option (?h1 ! length h) (et @ ''.'' @ k) v"
    using a unfolding clone by auto
  from validate_all_valid[OF dc this, of ck] v have r: "r = Inr ()" by simp
  have "h2 ! cfg = h ! cfg" using validate_frame[OF v] a by (simp add: nth_append)
  then have "get_option h2 ?self ''dim'' = get_option h ?self ''dim''"
    by (intro get_option_cong) simp
  then show "snd (KgeEmbedder_init h cfg ck) =
      (case get_option h ?self ''dim'' of
         Inl e \<Rightarrow> Inl e
       | Inr d \<Rightarrow> Inr \<lparr>config = cfg, configuration_key = ck,
                       embedder_type = Leaf (CStr et), dim = Some d\<rparr>)"
    using a by (simp add: init_unfold v r split: sum.splits)
qed

text \<open>The constructor on the two example configurations.\<close>

lemma ex_subtree:
  "subtree ex_options ''m.entity_embedder'' =
     [(''type'', CStr ''lookup_embedder''), (''dim'', CInt 50)]"
  "subtree ex_options_bad ''m.entity_embedder'' =
     [(''type'', CStr ''lookup_embedder''), (''dim'', CInt 50), (''foo'', CInt 1)]"
  by (simp_all add: subtree_def ex_options_bad_def ex_options_def)

lemma ex_type:
  "map_of ([ex_options] ! 0) (''m.entity_embedder'' @ ''.type'') = Some (CStr ''lookup_embedder'')"
  "map_of ([ex_options] ! 0) ''m.entity_embedder'' = None"
  "map_of ([ex_options_bad] ! 0) (''m.entity_embedder'' @ ''.type'') = Some (CStr ''lookup_embedder'')"
  "map_of ([ex_options_bad] ! 0) ''m.entity_embedder'' = None"
  by (simp_all add: ex_options_def ex_options_bad_def)

lemma ex_validate_ok:
  "validate ([ex_options] @ [[ex_options] ! 0]) (length [ex_options])
     (Leaf (CStr ''lookup_embedder'')) ''m.entity_embedder''
     (filter (\<lambda>(k', v'). k' \<noteq> ''type'') (subtree ([ex_options] ! 0) ''m.entity_embedder'')) =
   ([ex_options,
     [(''lookup_embedder.dim'', CInt 50),
      (''lookup_embedder.initialize'', CStr ''normal''),
      (''m.entity_embedder.type'', CStr ''lookup_embedder''),
      (''m.entity_embedder.dim'', CInt 50)]], Inr ())"
  by (simp add: ex_subtree str_add_def Config_set_def valid_option_def) (simp add: ex_options_def)

lemma ex_init_ok:
  "KgeEmbedder_init [ex_options] 0 ''m.entity_embedder'' =
     ([ex_options,
       [(''lookup_embedder.dim'', CInt 50),
        (''lookup_embedder.initialize'', CStr ''normal''),
        (''m.entity_embedder.type'', CStr ''lookup_embedder''),
        (''m.entity_embedder.dim'', CInt 50)]],
      Inr \<lparr>config = 0, configuration_key = ''m.entity_embedder'',
            embedder_type = Leaf (CStr ''lookup_embedder''), dim = Some (Leaf (CInt 50))\<rparr>)"
  unfolding init_unfold[OF ex_type(1,2)] ex_validate_ok
  by (simp add: get_option_def Config_get_def ex_options_def)

lemma ex_validate_bad:
  "validate ([ex_options_bad] @ [[ex_options_bad] ! 0]) (length [ex_options_bad])
     (Leaf (CStr ''lookup_embedder'')) ''m.entity_embedder''
     (filter (\<lambda>(k', v'). k' \<noteq> ''type'') (subtree ([ex_options_bad] ! 0) ''m.entity_embedder'')) =
   ([ex_options_bad,
     [(''lookup_embedder.dim'', CInt 50),
      (''lookup_embedder.initialize'', CStr ''normal''),
      (''m.entity_embedder.type'', CStr ''lookup_embedder''),
      (''m.entity_embedder.dim'', CInt 50),
      (''m.entity_embedder.foo'', CInt 1)]],
    Inl (ValueError ''key m.entity_embedder.foo invalid or of incorrect type''))"
  by (simp add: ex_subtree str_add_def Config_set_def valid_option_def)
     (simp add: ex_options_def ex_options_bad_def)

lemma ex_init_bad:
  "KgeEmbedder_init [ex_options_bad] 0 ''m.entity_embedder'' =
   ([ex_options_bad,
     [(''lookup_embedder.dim'', CInt 50),
      (''lookup_embedder.initialize'', CStr ''normal''),
      (''m.entity_embedder.type'', CStr ''lookup_embedder''),
      (''m.entity_embedder.dim'', CInt 50),
      (''m.entity_embedder.foo'', CInt 1)]],
    Inl (ValueError ''key m.entity_embedder.foo invalid or of incorrect type''))"
  unfolding init_unfold[OF ex_type(3,4)] ex_validate_bad by simp

text \<open>
  An embedder that the constructor returned has a string as its type: with any other value
  the constructor fails, in the loop or when it reads \<open>dim\<close>.
\<close>

lemma validate_type_error:
  assumes "\<And>x. str_add et x = Inl TypeError" and "opts \<noteq> []"
  shows "snd (validate h dc et ck opts) = Inl TypeError"
proof (cases opts)
  case Nil with assms(2) show ?thesis by simp
next
  case (Cons kv rest)
  obtain key val where "kv = (key, val)" by (cases kv)
  with Cons assms(1) show ?thesis by simp
qed

lemma str_add_cases:
  "(\<exists>t. x = Leaf (CStr t)) \<or> (\<forall>s. str_add x s = Inl TypeError)"
  by (auto simp: str_add_def split: cnode.splits cvalue.splits)

lemma subtree_nested:
  assumes "subtree opts (ck @ ''.'' @ name) \<noteq> []"
  shows "\<exists>k v. (k, v) \<in> set (subtree opts ck) \<and> take (length name + 1) k = name @ ''.''"
proof -
  from assms obtain k v where kv: "(k, v) \<in> set opts"
      "take (length (ck @ ''.'' @ name) + 1) k = (ck @ ''.'' @ name) @ ''.''"
    by (fastforce simp: subtree_def filter_empty_conv)
  define rest where "rest = drop (length (ck @ ''.'' @ name) + 1) k"
  have "k = take (length (ck @ ''.'' @ name) + 1) k @ rest"
    unfolding rest_def by simp
  then have k: "k = (ck @ ''.'') @ (name @ ''.'') @ rest"
    unfolding kv(2) by simp
  have pre: "take (length ck + 1) k = ck @ ''.''"
    by (subst k) simp
  have "drop (length ck + 1) k = (name @ ''.'') @ rest"
    by (subst k) simp
  then have "take (length name + 1) (drop (length ck + 1) k) = name @ ''.''"
    by simp
  with subtree_member[OF kv(1) pre] show ?thesis by blast
qed

lemma init_success_type:
  assumes cfg: "cfg < length h" and ok: "snd (KgeEmbedder_init h cfg ck) = Inr self"
  shows "\<exists>et. embedder_type self = Leaf (CStr et)"
proof -
  from ok obtain et0 nd flat custom h2 u d where
      et0: "Config_get h cfg (ck @ ''.type'') = Inr et0"
    and nd: "Config_get h cfg ck = Inr nd" "Config_flatten nd = Inr flat"
    and custom: "dict_del flat ''type'' = Inr custom"
    and v: "validate (h @ [h ! cfg]) (length h) et0 ck custom = (h2, Inr u)"
    and d: "get_option h2 \<lparr>config = cfg, configuration_key = ck, embedder_type = et0,
                            dim = None\<rparr> ''dim'' = Inr d"
    and self: "embedder_type self = et0"
    by (auto simp: KgeEmbedder_init_def Config_clone_def and_then_def Let_def
          split: sum.splits prod.splits)
  show ?thesis
  proof (rule ccontr)
    assume "\<nexists>et. embedder_type self = Leaf (CStr et)"
    with self str_add_cases[of et0] have te: "\<And>x. str_add et0 x = Inl TypeError" by auto
    have empty: "custom = []"
    proof (rule ccontr)
      assume "custom \<noteq> []"
      from validate_type_error[OF te this, of "h @ [h ! cfg]" "length h" ck] v
      show False by simp
    qed
    from nd have flat: "flat = subtree (h ! cfg) ck" and leaf: "map_of (h ! cfg) ck = None"
      by (auto simp: Config_get_def Config_flatten_def split: option.splits if_splits cnode.splits)
    from custom empty have only_type: "\<And>k v. (k, v) \<in> set (subtree (h ! cfg) ck) \<Longrightarrow> k = ''type''"
      unfolding flat by (auto simp: dict_del_def filter_empty_conv split: if_splits)
    have "\<not> has_key (h ! cfg) (ck @ ''.'' @ ''dim'')"
    proof
      assume "has_key (h ! cfg) (ck @ ''.'' @ ''dim'')"
      then consider v where "map_of (h ! cfg) (ck @ ''.'' @ ''dim'') = Some v"
        | "subtree (h ! cfg) (ck @ ''.'' @ ''dim'') \<noteq> []"
        by (auto simp: has_key_def)
      then show False
      proof cases
        case 1
        then have "(ck @ ''.'' @ ''dim'', v) \<in> set (h ! cfg)" by (rule map_of_SomeD)
        from subtree_member[OF this, of ck] have "(''dim'', v) \<in> set (subtree (h ! cfg) ck)"
          by simp
        from only_type[OF this] show False by simp
      next
        case 2
        from subtree_nested[OF this] obtain k v where
          "(k, v) \<in> set (subtree (h ! cfg) ck)" "take (length ''dim'' + 1) k = ''dim'' @ ''.''"
          by blast
        with only_type[of k v] show False by simp
      qed
    qed
    then have "Config_get h cfg (ck @ ''.'' @ ''dim'') = Inl KeyError"
      by (rule Config_get_has_key(2))
    moreover have "h2 ! cfg = h ! cfg" using validate_frame[OF v] cfg by (simp add: nth_append)
    ultimately have "Config_get h2 cfg (ck @ ''.'' @ ''dim'') = Inl KeyError"
      using Config_get_cong[of h2 cfg h] by simp
    with d te show False by (simp add: get_option_def and_then_def)
  qed
qed

section \<open>The embedder properties on the example configurations\<close>

theorem init_rejects_invalid_option_witness:
  "map_of ([ex_options_bad] ! 0) (''m.entity_embedder'' @ ''.type'') = Some (CStr ''lookup_embedder'') \<and>
   map_of ([ex_options_bad] ! 0) ''m.entity_embedder'' = None \<and>
   (''foo'', CInt 1) \<in> set (subtree ([ex_options_bad] ! 0) ''m.entity_embedder'') \<and>
   \<not> valid_option ([ex_options_bad] ! 0) (''lookup_embedder'' @ ''.'' @ ''foo'') (CInt 1) \<and>
   (\<exists>k' v' d. (k', v') \<in> set (subtree ([ex_options_bad] ! 0) ''m.entity_embedder'') \<and>
      k' \<noteq> ''type'' \<and>
      concrete_embedder_init (0::int) [ex_options_bad] [] 0 ''m.entity_embedder'' 3 =
        (([ex_options_bad] @ [d], []),
         Inl (ValueError (''key '' @ ''m.entity_embedder'' @ ''.'' @ k' @
                          '' invalid or of incorrect type''))))"
proof -
  have mem: "(''foo'', CInt 1) \<in> set (subtree ([ex_options_bad] ! 0) ''m.entity_embedder'')"
    by (simp add: ex_subtree)
  have inv: "''foo'' \<noteq> ''type''"
    "\<not> valid_option ([ex_options_bad] ! 0) (''lookup_embedder'' @ ''.'' @ ''foo'') (CInt 1)"
    by (simp_all add: valid_option_def ex_options_bad_def ex_options_def)
  note bad = mem inv
  show ?thesis
    using ex_type(3,4) bad
      init_rejects_invalid_option[OF ex_type(3,4) bad, of "0::int" "[]" 3] by blast
qed

text \<open>
  The concrete constructor on the two example configurations: with the offending option no
  table is allocated, without it the table of shape \<open>3 \<times> 50\<close> is.
\<close>

lemma ex_concrete_init_bad:
  "concrete_embedder_init (0::int) [ex_options_bad] [] 0 ''m.entity_embedder'' 3 =
     (([ex_options_bad,
        [(''lookup_embedder.dim'', CInt 50),
         (''lookup_embedder.initialize'', CStr ''normal''),
         (''m.entity_embedder.type'', CStr ''lookup_embedder''),
         (''m.entity_embedder.dim'', CInt 50),
         (''m.entity_embedder.foo'', CInt 1)]], []),
      Inl (ValueError ''key m.entity_embedder.foo invalid or of incorrect type''))"
  by (simp add: concrete_embedder_init_def ex_init_bad)

lemma ex_concrete_init_ok:
  "concrete_embedder_init (0::int) [ex_options] [] 0 ''m.entity_embedder'' 3 =
     (([ex_options,
        [(''lookup_embedder.dim'', CInt 50),
         (''lookup_embedder.initialize'', CStr ''normal''),
         (''m.entity_embedder.type'', CStr ''lookup_embedder''),
         (''m.entity_embedder.dim'', CInt 50)]],
       [\<lparr>shape = [3, 50], elems = replicate 150 0\<rparr>]),
      Inr (ex_embedder, 0))"
  by (simp add: concrete_embedder_init_def ex_init_ok ex_embedder_def)

lemma ex_embedder_constructed:
  "snd (KgeEmbedder_init [ex_options] 0 ''m.entity_embedder'') = Inr ex_embedder"
  by (simp add: ex_init_ok ex_embedder_def)

theorem get_option_resolution_witness:
  "embedder_type ex_embedder = Leaf (CStr ''lookup_embedder'') \<and>
   get_option [ex_options] ex_embedder ''dim'' = Inr (Leaf (CInt 50)) \<and>
   get_option [ex_options] ex_embedder ''initialize'' = Inr (Leaf (CStr ''normal'')) \<and>
   get_option [ex_options] ex_embedder ''foo'' = Inl KeyError"
proof -
  have ty: "embedder_type ex_embedder = Leaf (CStr ''lookup_embedder'')"
    by (simp add: ex_embedder_def)
  have keys:
    "has_key ([ex_options] ! config ex_embedder) (configuration_key ex_embedder @ ''.'' @ ''dim'')"
    "\<not> has_key ([ex_options] ! config ex_embedder) (configuration_key ex_embedder @ ''.'' @ ''initialize'')"
    "has_key ([ex_options] ! config ex_embedder) (''lookup_embedder'' @ ''.'' @ ''initialize'')"
    "\<not> has_key ([ex_options] ! config ex_embedder) (configuration_key ex_embedder @ ''.'' @ ''foo'')"
    "\<not> has_key ([ex_options] ! config ex_embedder) (''lookup_embedder'' @ ''.'' @ ''foo'')"
    by (simp_all add: has_key_def subtree_def ex_embedder_def ex_options_def)
  have gets:
    "Config_get [ex_options] (config ex_embedder) (configuration_key ex_embedder @ ''.'' @ ''dim'') =
       Inr (Leaf (CInt 50))"
    "Config_get [ex_options] (config ex_embedder) (''lookup_embedder'' @ ''.'' @ ''initialize'') =
       Inr (Leaf (CStr ''normal''))"
    by (simp_all add: Config_get_def ex_embedder_def ex_options_def)
  have "get_option [ex_options] ex_embedder ''dim'' = Inr (Leaf (CInt 50))"
    using get_option_resolution[OF ty, of "[ex_options]" "''dim''"] keys(1) gets(1) by auto
  moreover have "get_option [ex_options] ex_embedder ''initialize'' = Inr (Leaf (CStr ''normal''))"
    using get_option_resolution[OF ty, of "[ex_options]" "''initialize''"] keys(2,3) gets(2) by auto
  moreover have "get_option [ex_options] ex_embedder ''foo'' = Inl KeyError"
    using get_option_resolution[OF ty, of "[ex_options]" "''foo''"] keys(4,5) by blast
  ultimately show ?thesis using ty by simp
qed

theorem init_leaves_config_unchanged_witness:
  "(0::nat) < length [ex_options_bad] \<and>
   fst (KgeEmbedder_init [ex_options_bad] 0 ''m.entity_embedder'') ! 0 = [ex_options_bad] ! 0 \<and>
   fst (KgeEmbedder_init [ex_options] 0 ''m.entity_embedder'') ! 0 = [ex_options] ! 0 \<and>
   fst (KgeEmbedder_init [ex_options] 0 ''m.entity_embedder'') ! 1 \<noteq> ex_options"
proof -
  have l: "(0::nat) < length [ex_options_bad]" "(0::nat) < length [ex_options]" by simp_all
  have "fst (KgeEmbedder_init [ex_options] 0 ''m.entity_embedder'') ! 1 \<noteq> ex_options"
    by (simp add: ex_init_ok) (simp add: ex_options_def)
  then show ?thesis
    using l(1) init_leaves_config_unchanged[OF l(1), of "''m.entity_embedder''"]
      init_leaves_config_unchanged[OF l(2), of "''m.entity_embedder''"] by blast
qed

theorem type_entry_not_validated_witness:
  "\<not> has_key ex_options (''lookup_embedder'' @ ''.'' @ ''type'') \<and>
   snd (KgeEmbedder_init [ex_options] 0 ''m.entity_embedder'') = Inr ex_embedder"
proof -
  have hyp: "0 < length [ex_options] \<and>
    map_of ([ex_options] ! 0) (''m.entity_embedder'' @ ''.type'') = Some (CStr ''lookup_embedder'') \<and>
    map_of ([ex_options] ! 0) ''m.entity_embedder'' = None \<and>
    (\<forall>(k, v) \<in> set (subtree ([ex_options] ! 0) ''m.entity_embedder'').
       k \<noteq> ''type'' \<longrightarrow> valid_option ([ex_options] ! 0) (''lookup_embedder'' @ ''.'' @ k) v)"
    by (simp add: ex_subtree valid_option_def) (simp add: ex_options_def)
  have dim: "get_option [ex_options] \<lparr>config = 0, configuration_key = ''m.entity_embedder'',
                          embedder_type = Leaf (CStr ''lookup_embedder''), dim = None\<rparr> ''dim'' =
             Inr (Leaf (CInt 50))"
    by (simp add: get_option_def Config_get_def ex_options_def)
  have "\<not> has_key ex_options (''lookup_embedder'' @ ''.'' @ ''type'')"
    by (simp add: has_key_def subtree_def ex_options_def)
  moreover have "snd (KgeEmbedder_init [ex_options] 0 ''m.entity_embedder'') = Inr ex_embedder"
    using type_entry_not_validated[of "[ex_options]" 0 "''m.entity_embedder''" "''lookup_embedder''",
        THEN conjunct2, THEN mp, OF hyp]
    by (simp add: dim ex_embedder_def)
  ultimately show ?thesis by simp
qed

end
